theory Spec2Isabelle
  imports
    Main
    "HOL-Library.Char_ord"
    "HOL-Library.List_Lexorder"
    "HOL-Library.Product_Lexorder"
    "HOL-Library.Multiset"
    "HOL-Library.Sublist"
begin

section \<open>Media-mention report pipeline (\<^verbatim>\<open>main.py\<close>, endpoint \<^verbatim>\<open>analyser_json\<close>)\<close>

text \<open>
  The endpoint receives a batch of articles, builds a pandas data frame from it and derives
  four aggregates (indicators, mentions per day, keyword frequencies, authors), three
  pictures and one HTML document, which it writes to \<^verbatim>\<open>static/rapport_veille.html\<close> and
  returns together with the indicators.

  Conventions of the embedding.
  \<^item> A Python \<^verbatim>\<open>str\<close> is a \<^typ>\<open>string\<close> holding its UTF-8 bytes. Equality, concatenation
    and \<^verbatim>\<open>join\<close> are the same on both sides, and the byte-wise lexicographic order of
    UTF-8 is the code-point order Python and pandas sort by.
  \<^item> A Python \<^verbatim>\<open>int\<close> is an \<^typ>\<open>int\<close>; a count is a \<^typ>\<open>nat\<close>.
  \<^item> A naive UTC \<^verbatim>\<open>datetime\<close> with whole seconds is the number of seconds since
    1970-01-01T00:00:00; a \<^verbatim>\<open>date\<close> is the number of days since 1970-01-01. Both
    numberings are one-to-one with the calendar values and ordered as they are.
  \<^item> An exception is a value of type \<open>error\<close>; an operation that can raise returns
    \<open>error + 'a\<close>, and the first exception ends the run.
  \<^item> What matplotlib, wordcloud, base64, \<^verbatim>\<open>str.lower\<close>, \<^verbatim>\<open>DataFrame.to_html\<close>, the
    tie order of numpy's quicksort and the file system do is not part of \<^verbatim>\<open>main.py\<close>; these
    are the fields of the record \<open>library\<close>, a parameter of every function that calls them.
\<close>

subsection \<open>Data model\<close>

text \<open>The pydantic model \<^verbatim>\<open>Article\<close> (lines 34-41); \<^verbatim>\<open>keywords\<close> defaults to the empty list.\<close>

record Article =
  author :: string
  content_excerpt :: string
  published_at :: int
  sentiment_label :: string
  title :: string
  source_link :: string
  "keywords" :: "string list"

text \<open>
  The exceptions a run can end with: \<open>KeyError\<close> from selecting a column the frame does
  not have, \<open>TimestampError\<close> for the \<^verbatim>\<open>ValueError\<close>, \<^verbatim>\<open>OverflowError\<close> or \<^verbatim>\<open>OSError\<close> that
  \<^verbatim>\<open>datetime.utcfromtimestamp\<close> raises on the given value, \<open>AttributeError\<close> from the
  \<^verbatim>\<open>.dt\<close> accessor on a column that is not datetime-like, \<open>LibraryError\<close> for whatever
  the plotting libraries raise, and \<open>OSError\<close> from creating the directory or opening and
  writing the report file.
\<close>

datatype error =
    KeyError string
  | TimestampError int
  | AttributeError
  | LibraryError string
  | OSError string

text \<open>The dictionary \<^verbatim>\<open>kpis\<close> (lines 57-62).\<close>

record kpis =
  total_mentions :: nat
  positive :: nat
  negative :: nat
  neutral :: nat

text \<open>
  A frame of counts with a row label per row, as \<^verbatim>\<open>groupby(...).size().unstack()\<close> builds it:
  the column labels, and for every row its label and one cell per column.
\<close>

record frame =
  columns :: "string list"
  rows :: "(string \<times> nat list) list"

text \<open>
  The three figures the endpoint draws: the line chart of mentions per day (\<^verbatim>\<open>fig1\<close>), the
  picture of the generated word cloud (\<^verbatim>\<open>fig_kw\<close>) and the horizontal stacked bar chart of
  the author table (\<^verbatim>\<open>fig3\<close>).
\<close>

datatype figure =
    LineChart "(int \<times> nat) list"
  | CloudPicture string
  | StackedBars frame

text \<open>
  What lines 179-181 (\<^verbatim>\<open>os.makedirs\<close>, \<^verbatim>\<open>open\<close>, \<^verbatim>\<open>f.write\<close>) can do to the report file: write the
  whole document, or raise and leave the file in some state (as it was, or truncated).
\<close>

datatype write_outcome =
    Written
  | WriteFailed error "string option"

text \<open>
  The library functions the endpoint calls.
  \<^item> \<open>str_lower\<close>: \<^verbatim>\<open>str.lower\<close>.
  \<^item> \<open>argsort_desc\<close>: the positions in which \<^verbatim>\<open>sort_values(ascending=False)\<close> reads a
    column of counts (numpy's quicksort: the order of equal counts is not specified).
  \<^item> \<open>wordcloud_generate\<close>: \<^verbatim>\<open>WordCloud(...).generate\<close>, which raises when no word is left.
  \<^item> \<open>render_png\<close>: drawing a figure and \<^verbatim>\<open>fig.savefig(buf, format="png")\<close>.
  \<^item> \<open>b64encode\<close>: \<^verbatim>\<open>base64.b64encode(...).decode("utf-8")\<close>.
  \<^item> \<open>to_html\<close>: \<^verbatim>\<open>DataFrame.to_html(index=False, border=1, classes="styled-table")\<close> of
    a two-column table of authors and counts.
  \<^item> \<open>write_text\<close>: the operating system on lines 179-181, given the file as it is and the
    text to write.
\<close>

record library =
  str_lower :: "string \<Rightarrow> string"
  argsort_desc :: "nat list \<Rightarrow> nat list"
  wordcloud_generate :: "string \<Rightarrow> error + string"
  render_png :: "figure \<Rightarrow> error + string"
  b64encode :: "string \<Rightarrow> string"
  to_html :: "(string \<times> nat) list \<Rightarrow> string"
  write_text :: "string option \<Rightarrow> string \<Rightarrow> write_outcome"

text \<open>The JSON object the endpoint returns (lines 183-186).\<close>

record response =
  resp_kpis :: kpis
  resp_html_report :: string

subsection \<open>Encoding a figure (lines 27-31)\<close>

definition fig_to_base64 :: "library \<Rightarrow> figure \<Rightarrow> error + string" where
  "fig_to_base64 lib fig =
     (case render_png lib fig of
        Inl e \<Rightarrow> Inl e
      | Inr buf \<Rightarrow> Inr (b64encode lib buf))"

subsection \<open>Normalisation (lines 48-55, 65)\<close>

text \<open>
  \<^verbatim>\<open>pd.DataFrame([article.dict() for article in raw_data])\<close>: one row per article, in order.
  A frame built from the empty list has no columns at all, so selecting any column of it
  raises \<^verbatim>\<open>KeyError\<close>.
\<close>

definition get_column :: "string \<Rightarrow> (Article \<Rightarrow> 'a) \<Rightarrow> Article list \<Rightarrow> error + 'a list" where
  "get_column name field df = (if df = [] then Inl (KeyError name) else Inr (map field df))"

text \<open>
  \<^verbatim>\<open>datetime.utcfromtimestamp(ts)\<close> accepts the seconds of the years 1 to 9999, that is
  0001-01-01T00:00:00 (\<open>-62135596800\<close>) to 9999-12-31T23:59:59 (\<open>253402300799\<close>),
  and raises on every other integer.
\<close>

definition utcfromtimestamp :: "int \<Rightarrow> error + int" where
  "utcfromtimestamp ts =
     (if - 62135596800 \<le> ts \<and> ts \<le> 253402300799 then Inr ts else Inl (TimestampError ts))"

text \<open>\<^verbatim>\<open>Series.apply(f)\<close>: \<open>f\<close> on every element in order; the first exception ends it.\<close>

fun series_apply :: "('a \<Rightarrow> error + 'b) \<Rightarrow> 'a list \<Rightarrow> error + 'b list" where
  "series_apply f [] = Inr []"
| "series_apply f (x # xs) =
     (case f x of
        Inl e \<Rightarrow> Inl e
      | Inr y \<Rightarrow> (case series_apply f xs of Inl e \<Rightarrow> Inl e | Inr ys \<Rightarrow> Inr (y # ys)))"

text \<open>Line 51: the column \<^verbatim>\<open>articleCreatedDate\<close>.\<close>

definition articleCreatedDate :: "Article list \<Rightarrow> error + int list" where
  "articleCreatedDate df =
     (case get_column ''published_at'' published_at df of
        Inl e \<Rightarrow> Inl e
      | Inr col \<Rightarrow> series_apply utcfromtimestamp col)"

text \<open>
  pandas (1.x, 2.x) stores a column of \<^verbatim>\<open>datetime\<close> objects as \<^verbatim>\<open>datetime64[ns]\<close> when every
  value fits 64 bits of nanoseconds (1677-09-21 to 2262-04-11, \<open>\<bar>ts\<bar> \<le> 9223372036\<close>
  for whole seconds) and leaves it a column of objects otherwise; \<^verbatim>\<open>.dt\<close> on a
  column of objects raises \<^verbatim>\<open>AttributeError\<close>. \<^verbatim>\<open>.dt.date\<close> is the calendar day of each value
  (\<open>div\<close> rounds down, as the calendar does before 1970).
\<close>

definition in_datetime64_ns :: "int \<Rightarrow> bool" where
  "in_datetime64_ns ts \<longleftrightarrow> - 9223372036 \<le> ts \<and> ts \<le> 9223372036"

definition utc_day :: "int \<Rightarrow> int" where
  "utc_day ts = ts div 86400"

definition dt_date :: "int list \<Rightarrow> error + int list" where
  "dt_date col = (if list_all in_datetime64_ns col then Inr (map utc_day col) else Inl AttributeError)"

subsection \<open>Indicators (lines 57-62)\<close>

text \<open>\<^verbatim>\<open>int((df[column] == label).sum())\<close>: the rows whose value is exactly the label.\<close>

definition count_equal :: "string \<Rightarrow> string list \<Rightarrow> nat" where
  "count_equal label col = length (filter (\<lambda>v. v = label) col)"

definition compute_kpis :: "Article list \<Rightarrow> kpis" where
  "compute_kpis df =
     \<lparr>total_mentions = length df,
      positive = count_equal ''positive'' (map sentiment_label df),
      negative = count_equal ''negative'' (map sentiment_label df),
      neutral = count_equal ''neutral'' (map sentiment_label df)\<rparr>"

subsection \<open>Counting and ordering\<close>

text \<open>
  Counting with a hash table that keeps its keys in the order they first came: a new key
  is appended with count 1, a known key has its count raised in place. This is what
  \<^verbatim>\<open>collections.Counter(xs)\<close> does, and what \<^verbatim>\<open>value_counts\<close> does before it sorts.
\<close>

fun bump :: "'a \<Rightarrow> ('a \<times> nat) list \<Rightarrow> ('a \<times> nat) list" where
  "bump k [] = [(k, 1)]"
| "bump k ((k', c) # kvs) = (if k = k' then (k', c + 1) # kvs else (k', c) # bump k kvs)"

definition tally :: "'a list \<Rightarrow> ('a \<times> nat) list" where
  "tally xs = foldl (\<lambda>acc k. bump k acc) [] xs"

definition Counter :: "string list \<Rightarrow> (string \<times> nat) list" where
  "Counter xs = tally xs"

text \<open>
  The position at which a value first occurs in a list (the length of the list when it does
  not occur), and the order the specification gives the keywords: higher count first, and
  among equal counts the keyword that appears first in the flattened sequence.
\<close>

definition first_index :: "'a list \<Rightarrow> 'a \<Rightarrow> nat" where
  "first_index xs x = length (takeWhile (\<lambda>y. y \<noteq> x) xs)"

definition ranks_before :: "string list \<Rightarrow> (string \<times> nat) \<Rightarrow> (string \<times> nat) \<Rightarrow> bool" where
  "ranks_before kws p q \<longleftrightarrow>
     snd q < snd p \<or> (snd p = snd q \<and> first_index kws (fst p) < first_index kws (fst q))"

text \<open>Reading the rows of a table at the given positions, in that order.\<close>

definition reindex :: "nat list \<Rightarrow> 'a list \<Rightarrow> 'a list" where
  "reindex perm xs = map (\<lambda>i. xs ! i) perm"

text \<open>
  \<^verbatim>\<open>sort_values(ascending=False)\<close> on a column of counts: the rows in the order the
  library's argsort gives for that column.
\<close>

definition sort_values_desc :: "library \<Rightarrow> ('a \<Rightarrow> nat) \<Rightarrow> 'a list \<Rightarrow> 'a list" where
  "sort_values_desc lib by_col xs = reindex (argsort_desc lib (map by_col xs)) xs"

text \<open>
  What an argsort in descending order is: for every column, a rearrangement of the
  positions \<open>0, \<dots>, n - 1\<close> along which the values do not increase.
\<close>

definition valid_argsort :: "(nat list \<Rightarrow> nat list) \<Rightarrow> bool" where
  "valid_argsort f \<longleftrightarrow>
     (\<forall>vs. mset (f vs) = mset [0..<length vs] \<and>
           sorted_wrt (\<lambda>a b. b \<le> a) (map (\<lambda>i. vs ! i) (f vs)))"

text \<open>\<^verbatim>\<open>Series.value_counts()\<close>: the distinct values with their counts, largest count first.\<close>

definition value_counts :: "library \<Rightarrow> 'a list \<Rightarrow> ('a \<times> nat) list" where
  "value_counts lib col = sort_values_desc lib snd (tally col)"

text \<open>\<^verbatim>\<open>sort_index()\<close>: ascending in the (distinct) labels.\<close>

definition sort_index :: "('a::linorder \<times> nat) list \<Rightarrow> ('a \<times> nat) list" where
  "sort_index s = sort_key fst s"

subsection \<open>Mentions per day (lines 65-66)\<close>

definition mentions_over_time :: "library \<Rightarrow> int list \<Rightarrow> (int \<times> nat) list" where
  "mentions_over_time lib Period = sort_index (value_counts lib Period)"

subsection \<open>Keywords and the summary sentence (lines 76-100)\<close>

text \<open>
  Line 76. Every \<^verbatim>\<open>keywords\<close> value is a list (the pydantic model guarantees it), so the
  \<^verbatim>\<open>isinstance\<close> filter keeps every row.
\<close>

definition all_keywords :: "library \<Rightarrow> Article list \<Rightarrow> string list" where
  "all_keywords lib df = concat (map (\<lambda>a. map (str_lower lib) (keywords a)) df)"

text \<open>\<^verbatim>\<open>sep.join(xs)\<close>.\<close>

fun join :: "string \<Rightarrow> string list \<Rightarrow> string" where
  "join sep [] = []"
| "join sep [x] = x"
| "join sep (x # y # ys) = x @ sep @ join sep (y # ys)"

text \<open>
  \<^verbatim>\<open>Counter.most_common(n)\<close> is \<^verbatim>\<open>heapq.nlargest(n, items, key=count)\<close>, which Python
  documents as \<^verbatim>\<open>sorted(items, key=count, reverse=True)[:n]\<close>: a stable sort, so items of
  equal count stay in the order of the dictionary.
\<close>

definition most_common :: "nat \<Rightarrow> (string \<times> nat) list \<Rightarrow> (string \<times> nat) list" where
  "most_common n counter = take n (sort_key (\<lambda>kc. - int (snd kc)) counter)"

text \<open>Lines 94-98, for a non-empty list of keywords.\<close>

definition summary_sentence :: "string list \<Rightarrow> string" where
  \<open>summary_sentence top_keywords =
     ''Les mots-cl'' @ [CHR 0xC3, CHR 0xA9] @ ''s les plus r'' @ [CHR 0xC3, CHR 0xA9] @
     ''currents dans la couverture m'' @ [CHR 0xC3, CHR 0xA9] @ ''diatique sont '' @
     join '', '' (butlast top_keywords) @ '' et '' @ last top_keywords @ ''. '' @
     ''Cela refl'' @ [CHR 0xC3, CHR 0xA8] @ ''te les th'' @ [CHR 0xC3, CHR 0xA9] @
     ''matiques principales abord'' @ [CHR 0xC3, CHR 0xA9] @ ''es dans les articles analys'' @
     [CHR 0xC3, CHR 0xA9] @ ''s.''\<close>

definition top_keywords_of :: "string list \<Rightarrow> string list" where
  "top_keywords_of kws = map fst (most_common 6 (Counter kws))"

text \<open>
  Lines 76-100: the pair \<^verbatim>\<open>(keywords_freq_b64, summary_text)\<close>. \<^verbatim>\<open>summary_text\<close> starts as
  the empty string and is set only under both guards.
\<close>

definition keyword_analysis :: "library \<Rightarrow> Article list \<Rightarrow> error + (string \<times> string)" where
  "keyword_analysis lib df =
     (let kws = all_keywords lib df in
      if kws \<noteq> [] then
        (case wordcloud_generate lib (join '' '' kws) of
           Inl e \<Rightarrow> Inl e
         | Inr wordcloud \<Rightarrow>
             (case fig_to_base64 lib (CloudPicture wordcloud) of
                Inl e \<Rightarrow> Inl e
              | Inr keywords_freq_b64 \<Rightarrow>
                  (let top_keywords = top_keywords_of kws in
                   Inr (keywords_freq_b64,
                        if top_keywords \<noteq> [] then summary_sentence top_keywords else ''''))))
      else Inr ('''', ''''))"

subsection \<open>Authors (lines 103-106, 117-124)\<close>

text \<open>
  \<^verbatim>\<open>groupby([a, b]).size()\<close>: the pairs that occur, in ascending order, each with the number
  of rows that carry it.
\<close>

definition groupby_size :: "(string \<times> string) list \<Rightarrow> ((string \<times> string) \<times> nat) list" where
  "groupby_size pairs = map (\<lambda>p. (p, count_list pairs p)) (sort (remdups pairs))"

text \<open>
  \<^verbatim>\<open>unstack(fill_value=v)\<close>: the first components label the rows, the second the columns,
  both ascending; a pair that does not occur gets \<open>v\<close>.
\<close>

definition unstack :: "((string \<times> string) \<times> nat) list \<Rightarrow> nat \<Rightarrow> frame" where
  "unstack s fill_value =
     (let cols = sort (remdups (map (\<lambda>kv. snd (fst kv)) s)) in
      \<lparr>columns = cols,
       rows = map (\<lambda>a. (a, map (\<lambda>l. case map_of s (a, l) of Some n \<Rightarrow> n | None \<Rightarrow> fill_value) cols))
                  (sort (remdups (map (\<lambda>kv. fst (fst kv)) s)))\<rparr>)"

text \<open>Line 103.\<close>

definition author_sentiment :: "Article list \<Rightarrow> frame" where
  "author_sentiment df = unstack (groupby_size (map (\<lambda>a. (author a, sentiment_label a)) df)) 0"

text \<open>\<^verbatim>\<open>frame.sum(axis=1)\<close>: the sum of every row.\<close>

definition row_sums :: "frame \<Rightarrow> nat list" where
  "row_sums f = map (\<lambda>r. sum_list (snd r)) (rows f)"

text \<open>
  \<^verbatim>\<open>frame[name] = values\<close>: a column of that label is overwritten where it stands; otherwise
  the column is appended.
\<close>

definition set_column :: "string \<Rightarrow> nat list \<Rightarrow> frame \<Rightarrow> frame" where
  "set_column name vals f =
     (if name \<in> set (columns f)
      then f\<lparr>rows := map (\<lambda>(r, v). (fst r, map (\<lambda>(c, x). if c = name then v else x) (zip (columns f) (snd r))))
                         (zip (rows f) vals)\<rparr>
      else \<lparr>columns = columns f @ [name],
            rows = map (\<lambda>(r, v). (fst r, snd r @ [v])) (zip (rows f) vals)\<rparr>)"

text \<open>The cell of a row in the column of the given label (0 when there is no such column).\<close>

definition cell :: "string list \<Rightarrow> string \<Rightarrow> (string \<times> nat list) \<Rightarrow> nat" where
  "cell cols name r = (case map_of (zip cols (snd r)) name of Some x \<Rightarrow> x | None \<Rightarrow> 0)"

text \<open>\<^verbatim>\<open>sort_values(by=name, ascending=False)\<close>, \<^verbatim>\<open>head(n)\<close>, \<^verbatim>\<open>drop(columns=name)\<close>, \<^verbatim>\<open>iloc[::-1]\<close>.\<close>

definition sort_values_by :: "library \<Rightarrow> string \<Rightarrow> frame \<Rightarrow> frame" where
  "sort_values_by lib name f = f\<lparr>rows := sort_values_desc lib (cell (columns f) name) (rows f)\<rparr>"

definition head :: "nat \<Rightarrow> frame \<Rightarrow> frame" where
  "head n f = f\<lparr>rows := take n (rows f)\<rparr>"

definition drop_column :: "string \<Rightarrow> frame \<Rightarrow> frame" where
  "drop_column name f =
     \<lparr>columns = filter (\<lambda>c. c \<noteq> name) (columns f),
      rows = map (\<lambda>r. (fst r, map snd (filter (\<lambda>cx. fst cx \<noteq> name) (zip (columns f) (snd r))))) (rows f)\<rparr>"

definition iloc_reversed :: "frame \<Rightarrow> frame" where
  "iloc_reversed f = f\<lparr>rows := rev (rows f)\<rparr>"

text \<open>Lines 103-106: the table handed to the bar chart.\<close>

definition top_authors_sentiment :: "library \<Rightarrow> Article list \<Rightarrow> frame" where
  "top_authors_sentiment lib df =
     (let table = author_sentiment df;
          with_total = set_column ''Total'' (row_sums table) table
      in iloc_reversed (drop_column ''Total'' (head 10 (sort_values_by lib ''Total'' with_total))))"

text \<open>
  Lines 117-122: the rows of the ranking table, before \<^verbatim>\<open>to_html\<close>. (\<^verbatim>\<open>reset_index\<close> and
  \<^verbatim>\<open>rename\<close> only label the two columns.)
\<close>

definition top_table_rows :: "library \<Rightarrow> Article list \<Rightarrow> (string \<times> nat) list" where
  "top_table_rows lib df = take 5 (value_counts lib (map author df))"

subsection \<open>The HTML document (lines 127-178)\<close>

text \<open>\<^verbatim>\<open>str(n)\<close> of a count, as the f-string writes it: decimal, no leading zero.\<close>

fun str_nat :: "nat \<Rightarrow> string" where
  "str_nat n =
     (if n < 10 then [''0123456789'' ! n]
      else str_nat (n div 10) @ [''0123456789'' ! (n mod 10)])"

declare str_nat.simps [simp del]

text \<open>
  The template, cut at section boundaries; every source line is one line here, bytes
  beyond ASCII are spelled out, and \<open>{{\<close>, \<open>}}\<close> of the f-string are the braces they print.
\<close>

definition html_head :: "string" where
  \<open>html_head =
     ''<!DOCTYPE html>\<newline>'' @
     ''<html lang='fr'>\<newline>'' @
     ''<head>\<newline>'' @
     ''    <meta charset='UTF-8'>\<newline>'' @
     ''    <title>'' @ [CHR 0xF0, CHR 0x9F, CHR 0x93, CHR 0x8A] @ '' Rapport d'Analyse Automatis'' @ [CHR 0xC3, CHR 0xA9] @ ''e de Veille M'' @ [CHR 0xC3, CHR 0xA9] @ ''diatique</title>\<newline>'' @
     ''    <style>\<newline>'' @
     ''        body { font-family: Arial, sans-serif; padding: 40px; max-width: 900px; margin: auto; background-color: white; }\<newline>'' @
     ''        h1, h2 { text-align: center; color: #023047; }\<newline>'' @
     ''        .centered-text { max-width: 800px; margin: 0 auto 40px; text-align: center; font-size: 16px; line-height: 1.6; }\<newline>'' @
     ''        .styled-table { border-collapse: collapse; margin: 25px auto; font-size: 16px; width: 80%; border: 1px solid #dddddd; }\<newline>'' @
     ''        .styled-table th, .styled-table td { padding: 10px 15px; text-align: left; border: 1px solid #dddddd; }\<newline>'' @
     ''        .styled-table thead th { background-color: white; font-weight: bold; }\<newline>'' @
     ''        .image-block { text-align: center; margin: 30px 0; }\<newline>'' @
     ''    </style>\<newline>'' @
     ''</head>\<newline>'' @
     ''<body>\<newline>'' @
     ''    <h1>'' @ [CHR 0xF0, CHR 0x9F, CHR 0x93, CHR 0x8A] @ '' Rapport d'Analyse Automatis'' @ [CHR 0xC3, CHR 0xA9] @ ''e de Veille M'' @ [CHR 0xC3, CHR 0xA9] @ ''diatique</h1>\<newline>'' @
     ''    <div class="centered-text">\<newline>'' @
     ''        <p>\<newline>'' @
     ''            Ce rapport fournit une analyse approfondie des articles collect'' @ [CHR 0xC3, CHR 0xA9] @ ''s depuis la plateforme Lumenfeed. \<newline>'' @
     ''            Il vise '' @ [CHR 0xC3, CHR 0xA0] @ '' offrir une vision claire et synth'' @ [CHR 0xC3, CHR 0xA9] @ ''tique de la couverture m'' @ [CHR 0xC3, CHR 0xA9] @ ''diatique d'' @ [CHR 0xE2, CHR 0x80, CHR 0x99] @ ''un sujet donn'' @ [CHR 0xC3, CHR 0xA9] @ '', \<newline>'' @
     ''            en mettant en '' @ [CHR 0xC3, CHR 0xA9] @ ''vidence les volumes de publication, les auteurs les plus actifs, et les principaux mots-cl'' @ [CHR 0xC3, CHR 0xA9] @ ''s abord'' @ [CHR 0xC3, CHR 0xA9] @ ''s. \<newline>'' @
     ''        </p>\<newline>'' @
     ''    </div>\<newline>''\<close>

definition kpi_tiles :: "kpis \<Rightarrow> string" where
  \<open>kpi_tiles k =
     ''    <h2>Indicateurs Cl'' @ [CHR 0xC3, CHR 0xA9] @ ''s</h2>\<newline>'' @
     ''    <div style="display: flex; justify-content: space-around; margin: 20px 0;">\<newline>'' @
     ''        <div style="text-align: center;"><h3>'' @ str_nat (total_mentions k) @ ''</h3><p>Mentions totales</p></div>\<newline>'' @
     ''        <div style="text-align: center;"><h3>'' @ str_nat (positive k) @ ''</h3><p>Positives</p></div>\<newline>'' @
     ''        <div style="text-align: center;"><h3>'' @ str_nat (negative k) @ ''</h3><p>N'' @ [CHR 0xC3, CHR 0xA9] @ ''gatives</p></div>\<newline>'' @
     ''        <div style="text-align: center;"><h3>'' @ str_nat (neutral k) @ ''</h3><p>Neutres</p></div>\<newline>'' @
     ''    </div>\<newline>''\<close>

definition evolution_block :: "string \<Rightarrow> string" where
  \<open>evolution_block evolution_mentions_b64 =
     ''    <div class="image-block">\<newline>'' @
     ''        <h2>'' @ [CHR 0xC3, CHR 0x89] @ ''volution des mentions</h2>\<newline>'' @
     ''        <img src="data:image/png;base64,'' @ evolution_mentions_b64 @ ''" width="700"/>\<newline>'' @
     ''    </div>\<newline>''\<close>

definition keywords_block :: "string \<Rightarrow> string" where
  \<open>keywords_block keywords_freq_b64 =
     ''    <div class="image-block">\<newline>'' @
     ''        <h2>Mots-cl'' @ [CHR 0xC3, CHR 0xA9] @ ''s les plus fr'' @ [CHR 0xC3, CHR 0xA9] @ ''quents</h2>\<newline>'' @
     ''        <img src="data:image/png;base64,'' @ keywords_freq_b64 @ ''" width="600"/>\<newline>'' @
     ''    </div>\<newline>''\<close>

definition summary_block :: "string \<Rightarrow> string" where
  \<open>summary_block summary_text =
     ''    <h2>R'' @ [CHR 0xC3, CHR 0xA9] @ ''sum'' @ [CHR 0xC3, CHR 0xA9] @ '' automatique</h2>\<newline>'' @
     ''    <div class="centered-text">\<newline>'' @
     ''        <p>'' @ summary_text @ ''</p>\<newline>'' @
     ''    </div>\<newline>''\<close>

definition sentiments_block :: "string \<Rightarrow> string" where
  \<open>sentiments_block sentiments_auteurs_b64 =
     ''    <div class="image-block">\<newline>'' @
     ''        <h2>R'' @ [CHR 0xC3, CHR 0xA9] @ ''partition des sentiments par auteur</h2>\<newline>'' @
     ''        <img src="data:image/png;base64,'' @ sentiments_auteurs_b64 @ ''" width="700"/>\<newline>'' @
     ''    </div>\<newline>''\<close>

definition top_authors_block :: "string \<Rightarrow> string" where
  \<open>top_authors_block top_table =
     ''    <h2>Top 5 Auteurs les plus actifs</h2>\<newline>'' @
     ''    '' @ top_table @ ''\<newline>''\<close>

definition html_tail :: "string" where
  \<open>html_tail =
     ''</body>\<newline>'' @
     ''</html>\<newline>''\<close>
definition html_report :: "kpis \<Rightarrow> string \<Rightarrow> string \<Rightarrow> string \<Rightarrow> string \<Rightarrow> string \<Rightarrow> string" where
  "html_report k evolution_mentions_b64 keywords_freq_b64 summary_text sentiments_auteurs_b64 top_table =
     html_head @ kpi_tiles k @ evolution_block evolution_mentions_b64 @
     keywords_block keywords_freq_b64 @ summary_block summary_text @
     sentiments_block sentiments_auteurs_b64 @ top_authors_block top_table @ html_tail"

text \<open>
  Two pieces of the keyword section as they stand in a document: its heading, and its
  \<^verbatim>\<open>img\<close> element when the image string is empty.
\<close>

definition keywords_heading :: string where
  \<open>keywords_heading =
     ''<h2>Mots-cl'' @ [CHR 0xC3, CHR 0xA9] @ ''s les plus fr'' @ [CHR 0xC3, CHR 0xA9] @ ''quents</h2>''\<close>

definition empty_keyword_image :: string where
  \<open>empty_keyword_image = ''<img src="data:image/png;base64," width="600"/>''\<close>

subsection \<open>The endpoint (lines 46-186)\<close>

text \<open>
  The file \<^verbatim>\<open>static/rapport_veille.html\<close> is the state: \<open>None\<close> while it does not exist,
  \<open>Some\<close> of its content afterwards. The endpoint returns the response or the exception,
  and the file as it leaves it. Lines 179-181 come last before the \<^verbatim>\<open>return\<close>: when they
  raise, the run ends with that exception and the file is left as the failed write left it;
  when they succeed, the file holds the document.
\<close>

definition analyser_json ::
  "library \<Rightarrow> Article list \<Rightarrow> string option \<Rightarrow> (error + response) \<times> string option" where
  "analyser_json lib raw_data file =
     (let df = raw_data in
      case articleCreatedDate df of
        Inl e \<Rightarrow> (Inl e, file)
      | Inr created \<Rightarrow>
          (let k = compute_kpis df in
           case dt_date created of
             Inl e \<Rightarrow> (Inl e, file)
           | Inr Period \<Rightarrow>
               (case fig_to_base64 lib (LineChart (mentions_over_time lib Period)) of
                  Inl e \<Rightarrow> (Inl e, file)
                | Inr evolution_mentions_b64 \<Rightarrow>
                    (case keyword_analysis lib df of
                       Inl e \<Rightarrow> (Inl e, file)
                     | Inr (keywords_freq_b64, summary_text) \<Rightarrow>
                         (case fig_to_base64 lib (StackedBars (top_authors_sentiment lib df)) of
                            Inl e \<Rightarrow> (Inl e, file)
                          | Inr sentiments_auteurs_b64 \<Rightarrow>
                              (let top_table = to_html lib (top_table_rows lib df);
                                   html = html_report k evolution_mentions_b64 keywords_freq_b64
                                            summary_text sentiments_auteurs_b64 top_table
                               in case write_text lib file html of
                                    WriteFailed e file' \<Rightarrow> (Inl e, file')
                                  | Written \<Rightarrow>
                                      (Inr \<lparr>resp_kpis = k, resp_html_report = html\<rparr>, Some html)))))))"

subsection \<open>A concrete library and concrete batches\<close>

text \<open>
  An instance of the library to run the endpoint on: lower-casing of ASCII letters, a
  stable argsort, a word cloud that refuses an empty text, transparent stand-ins for
  the renderers, and a file system on which every write succeeds.
\<close>

definition ascii_lower :: "string \<Rightarrow> string" where
  "ascii_lower s =
     map (\<lambda>c. if CHR ''A'' \<le> c \<and> c \<le> CHR ''Z'' then char_of (of_char c + (32::nat)) else c) s"

definition stable_argsort_desc :: "nat list \<Rightarrow> nat list" where
  "stable_argsort_desc vs = sort_key (\<lambda>i. - int (vs ! i)) [0..<length vs]"

definition plain_table :: "(string \<times> nat) list \<Rightarrow> string" where
  "plain_table rs = concat (map (\<lambda>r. fst r @ '': '' @ str_nat (snd r) @ ''; '') rs)"

definition sample_library :: library where
  "sample_library =
     \<lparr>str_lower = ascii_lower,
      argsort_desc = stable_argsort_desc,
      wordcloud_generate = (\<lambda>t. if t = [] then Inl (LibraryError ''ValueError'') else Inr t),
      render_png = (\<lambda>fig. Inr ''PNG''),
      b64encode = (\<lambda>buf. buf),
      to_html = plain_table,
      write_text = (\<lambda>file text. Written)\<rparr>"

definition article :: "string \<Rightarrow> int \<Rightarrow> string \<Rightarrow> string list \<Rightarrow> Article" where
  "article a ts label kws =
     \<lparr>author = a, content_excerpt = '''', published_at = ts, sentiment_label = label,
      title = '''', source_link = '''', keywords = kws\<rparr>"

text \<open>Three articles of two authors on two days (2023-11-14 and 2023-11-15).\<close>

definition sample_batch :: "Article list" where
  "sample_batch =
     [article ''ana'' 1700000000 ''positive'' [''AI'', ''Policy''],
      article ''bob'' 1700003600 ''negative'' [''ai''],
      article ''ana'' 1700090000 ''positive'' []]"

text \<open>
  Twenty-one articles of twelve authors on three days, with a label outside the three
  canonical ones (\<^verbatim>\<open>mixed\<close>), one in another case (\<^verbatim>\<open>Positive\<close>) and eight distinct keywords.
\<close>

definition busy_batch :: "Article list" where
  "busy_batch =
     [article ''g'' 1700000000 ''positive'' [''Budget'', ''tax''],
      article ''a'' 1700000060 ''negative'' [''tax''],
      article ''b'' 1700000120 ''neutral'' [],
      article ''g'' 1700000180 ''positive'' [''health''],
      article ''c'' 1700086640 ''positive'' [''Tax'', ''energy''],
      article ''a'' 1700086700 ''positive'' [''budget''],
      article ''d'' 1700086760 ''mixed'' [''school''],
      article ''e'' 1700086820 ''negative'' [''Energy''],
      article ''g'' 1700086880 ''neutral'' [''rail''],
      article ''f'' 1700086940 ''neutral'' [],
      article ''c'' 1700087000 ''negative'' [''health'', ''school''],
      article ''h'' 1700173460 ''positive'' [''water''],
      article ''i'' 1700173520 ''positive'' [''TAX''],
      article ''a'' 1700173580 ''neutral'' [''budget''],
      article ''e'' 1700173640 ''positive'' [],
      article ''g'' 1700173700 ''negative'' [''port''],
      article ''i'' 1700173760 ''neutral'' [],
      article ''j'' 1700173820 ''Positive'' [],
      article ''k'' 1700173880 ''negative'' [],
      article ''l'' 1700173940 ''positive'' [],
      article ''l'' 1700174000 ''positive'' []]"

text \<open>One article without keywords, and one article with a single keyword.\<close>

definition quiet_batch :: "Article list" where
  "quiet_batch = [article ''ana'' 1700000000 ''neutral'' []]"

definition lone_keyword_batch :: "Article list" where
  "lone_keyword_batch = [article ''ana'' 1700000000 ''positive'' [''AI'']]"

text \<open>Three articles, two of them with the sentiment label \<^verbatim>\<open>Total\<close>.\<close>

definition total_label_batch :: "Article list" where
  "total_label_batch =
     [article ''ana'' 1700000000 ''Total'' [],
      article ''ana'' 1700000060 ''Total'' [],
      article ''bob'' 1700000120 ''positive'' []]"

section \<open>Properties\<close>

subsection \<open>Timestamps and the course of a run\<close>

lemma utcfromtimestamp_Inr_iff:
  "utcfromtimestamp ts = Inr t \<longleftrightarrow> t = ts \<and> - 62135596800 \<le> ts \<and> ts \<le> 253402300799"
  by (auto simp: utcfromtimestamp_def)

lemma isl_utcfromtimestamp:
  "isl (utcfromtimestamp ts) \<longleftrightarrow> ts < - 62135596800 \<or> 253402300799 < ts"
  by (auto simp: utcfromtimestamp_def)

lemma utcfromtimestamp_cases:
  "utcfromtimestamp ts = Inr ts \<or> utcfromtimestamp ts = Inl (TimestampError ts)"
  by (simp add: utcfromtimestamp_def)

lemma in_datetime64_ns_valid:
  "in_datetime64_ns ts \<Longrightarrow> utcfromtimestamp ts = Inr ts"
  by (simp add: in_datetime64_ns_def utcfromtimestamp_def)

lemma series_apply_utc_ok:
  "list_all (\<lambda>ts. \<not> isl (utcfromtimestamp ts)) col \<Longrightarrow> series_apply utcfromtimestamp col = Inr col"
proof (induction col)
  case Nil
  then show ?case by simp
next
  case (Cons ts col)
  then have "utcfromtimestamp ts = Inr ts"
    using utcfromtimestamp_cases [of ts] by auto
  with Cons show ?case by simp
qed

lemma series_apply_utc_fails:
  "list_ex (\<lambda>ts. isl (utcfromtimestamp ts)) col \<Longrightarrow>
   \<exists>ts \<in> set col. isl (utcfromtimestamp ts) \<and> series_apply utcfromtimestamp col = Inl (TimestampError ts)"
proof (induction col)
  case Nil
  then show ?case by simp
next
  case (Cons t col)
  show ?case
  proof (cases "isl (utcfromtimestamp t)")
    case True
    then have "utcfromtimestamp t = Inl (TimestampError t)"
      using utcfromtimestamp_cases [of t] by auto
    with True show ?thesis by simp
  next
    case False
    then have ok: "utcfromtimestamp t = Inr t"
      using utcfromtimestamp_cases [of t] by auto
    from False Cons.prems have "list_ex (\<lambda>ts. isl (utcfromtimestamp ts)) col" by simp
    from Cons.IH [OF this] obtain ts where
      "ts \<in> set col" "isl (utcfromtimestamp ts)"
      "series_apply utcfromtimestamp col = Inl (TimestampError ts)" by blast
    with ok show ?thesis by auto
  qed
qed

lemma series_apply_utc_Inr:
  "series_apply utcfromtimestamp col = Inr created \<Longrightarrow> created = col"
proof (induction col arbitrary: created)
  case Nil
  then show ?case by simp
next
  case (Cons t col)
  then show ?case
    using utcfromtimestamp_cases [of t] by (auto split: sum.splits)
qed

lemma articleCreatedDate_Nil: "articleCreatedDate [] = Inl (KeyError ''published_at'')"
  by (simp add: articleCreatedDate_def get_column_def)

lemma articleCreatedDate_Inr:
  "articleCreatedDate df = Inr created \<Longrightarrow> df \<noteq> [] \<and> created = map published_at df"
  by (auto simp: articleCreatedDate_def get_column_def dest: series_apply_utc_Inr split: if_splits)

lemma articleCreatedDate_ok:
  "df \<noteq> [] \<Longrightarrow> list_all (\<lambda>a. \<not> isl (utcfromtimestamp (published_at a))) df \<Longrightarrow>
   articleCreatedDate df = Inr (map published_at df)"
  by (simp add: articleCreatedDate_def get_column_def series_apply_utc_ok list_all_iff)

lemma articleCreatedDate_fails:
  assumes "a \<in> set df" and "isl (utcfromtimestamp (published_at a))"
  shows "\<exists>b \<in> set df. isl (utcfromtimestamp (published_at b)) \<and>
           articleCreatedDate df = Inl (TimestampError (published_at b))"
proof -
  from assms have "list_ex (\<lambda>ts. isl (utcfromtimestamp ts)) (map published_at df)"
    by (auto simp: list_ex_iff)
  from series_apply_utc_fails [OF this] assms(1) show ?thesis
    by (auto simp: articleCreatedDate_def get_column_def)
qed

lemma dt_date_Inr:
  "dt_date col = Inr Period \<Longrightarrow> Period = map utc_day col \<and> list_all in_datetime64_ns col"
  by (auto simp: dt_date_def split: if_splits)

lemma analyser_json_created_fails:
  "articleCreatedDate df = Inl e \<Longrightarrow> analyser_json lib df file = (Inl e, file)"
  by (simp add: analyser_json_def)

lemma analyser_json_Inr:
  assumes "analyser_json lib df file = (Inr r, file')"
  shows "df \<noteq> [] \<and> list_all (\<lambda>a. in_datetime64_ns (published_at a)) df \<and>
         resp_kpis r = compute_kpis df \<and> file' = Some (resp_html_report r) \<and>
         write_text lib file (resp_html_report r) = Written \<and>
         (\<exists>e kw s sa.
            fig_to_base64 lib (LineChart (mentions_over_time lib (map (\<lambda>a. utc_day (published_at a)) df))) = Inr e \<and>
            keyword_analysis lib df = Inr (kw, s) \<and>
            fig_to_base64 lib (StackedBars (top_authors_sentiment lib df)) = Inr sa \<and>
            resp_html_report r =
              html_report (compute_kpis df) e kw s sa (to_html lib (top_table_rows lib df)))"
proof -
  from assms obtain created where c: "articleCreatedDate df = Inr created"
    by (auto simp: analyser_json_def split: sum.splits)
  then have df: "df \<noteq> []" and created: "created = map published_at df"
    by (auto dest: articleCreatedDate_Inr)
  from assms c obtain Period where p: "dt_date created = Inr Period"
    by (auto simp: analyser_json_def Let_def split: sum.splits)
  then have Period: "Period = map (\<lambda>a. utc_day (published_at a)) df"
    and ns: "list_all (\<lambda>a. in_datetime64_ns (published_at a)) df"
    using created by (auto dest!: dt_date_Inr simp: list_all_iff)
  from assms c p show ?thesis
    using df ns unfolding Period
    by (auto simp: analyser_json_def Let_def split: sum.splits prod.splits write_outcome.splits)
qed

lemma analyser_json_success:
  assumes "df \<noteq> []"
    and "list_all (\<lambda>a. in_datetime64_ns (published_at a)) df"
    and "fig_to_base64 lib (LineChart (mentions_over_time lib (map (\<lambda>a. utc_day (published_at a)) df))) = Inr e"
    and "keyword_analysis lib df = Inr (kw, s)"
    and "fig_to_base64 lib (StackedBars (top_authors_sentiment lib df)) = Inr sa"
    and "write_text lib file
           (html_report (compute_kpis df) e kw s sa (to_html lib (top_table_rows lib df))) = Written"
  shows "analyser_json lib df file =
           (Inr \<lparr>resp_kpis = compute_kpis df,
                 resp_html_report = html_report (compute_kpis df) e kw s sa (to_html lib (top_table_rows lib df))\<rparr>,
            Some (html_report (compute_kpis df) e kw s sa (to_html lib (top_table_rows lib df))))"
proof -
  from assms(2) have "list_all (\<lambda>a. \<not> isl (utcfromtimestamp (published_at a))) df"
    by (auto simp: list_all_iff in_datetime64_ns_def utcfromtimestamp_def)
  with assms(1) have c: "articleCreatedDate df = Inr (map published_at df)"
    by (rule articleCreatedDate_ok)
  from assms(2) have p: "dt_date (map published_at df) = Inr (map (\<lambda>a. utc_day (published_at a)) df)"
    by (simp add: dt_date_def list_all_iff)
  show ?thesis
    by (simp add: analyser_json_def Let_def c p assms(3-6))
qed

lemma analyser_json_write_fails:
  assumes "df \<noteq> []"
    and "list_all (\<lambda>a. in_datetime64_ns (published_at a)) df"
    and "fig_to_base64 lib (LineChart (mentions_over_time lib (map (\<lambda>a. utc_day (published_at a)) df))) = Inr e"
    and "keyword_analysis lib df = Inr (kw, s)"
    and "fig_to_base64 lib (StackedBars (top_authors_sentiment lib df)) = Inr sa"
    and "write_text lib file
           (html_report (compute_kpis df) e kw s sa (to_html lib (top_table_rows lib df))) =
         WriteFailed err file'"
  shows "analyser_json lib df file = (Inl err, file')"
proof -
  from assms(2) have "list_all (\<lambda>a. \<not> isl (utcfromtimestamp (published_at a))) df"
    by (auto simp: list_all_iff in_datetime64_ns_def utcfromtimestamp_def)
  with assms(1) have c: "articleCreatedDate df = Inr (map published_at df)"
    by (rule articleCreatedDate_ok)
  from assms(2) have p: "dt_date (map published_at df) = Inr (map (\<lambda>a. utc_day (published_at a)) df)"
    by (simp add: dt_date_def list_all_iff)
  show ?thesis
    by (simp add: analyser_json_def Let_def c p assms(3-6))
qed

subsection \<open>The concrete library on the concrete batch\<close>

lemma sample_library_simps:
  "str_lower sample_library = ascii_lower"
  "argsort_desc sample_library = stable_argsort_desc"
  "wordcloud_generate sample_library t = (if t = [] then Inl (LibraryError ''ValueError'') else Inr t)"
  "render_png sample_library fig = Inr ''PNG''"
  "b64encode sample_library buf = buf"
  "to_html sample_library = plain_table"
  "write_text sample_library file text = Written"
  by (simp_all add: sample_library_def)

lemma fig_to_base64_sample: "fig_to_base64 sample_library fig = Inr ''PNG''"
  by (simp add: fig_to_base64_def sample_library_simps)

lemma sample_batch_in_range:
  "list_all (\<lambda>a. in_datetime64_ns (published_at a)) sample_batch"
  by (simp add: sample_batch_def article_def in_datetime64_ns_def)

lemma all_keywords_sample: "all_keywords sample_library sample_batch = [''ai'', ''policy'', ''ai'']"
  by code_simp

lemma top_keywords_sample: "top_keywords_of [''ai'', ''policy'', ''ai''] = [''ai'', ''policy'']"
  by code_simp

lemma keyword_analysis_sample:
  "keyword_analysis sample_library sample_batch = Inr (''PNG'', summary_sentence [''ai'', ''policy''])"
  by (simp add: keyword_analysis_def all_keywords_sample top_keywords_sample fig_to_base64_sample
      sample_library_simps Let_def)

lemma analyser_json_sample:
  "analyser_json sample_library sample_batch None =
     (Inr \<lparr>resp_kpis = compute_kpis sample_batch,
           resp_html_report =
             html_report (compute_kpis sample_batch) ''PNG'' ''PNG'' (summary_sentence [''ai'', ''policy''])
               ''PNG'' (plain_table (top_table_rows sample_library sample_batch))\<rparr>,
      Some (html_report (compute_kpis sample_batch) ''PNG'' ''PNG'' (summary_sentence [''ai'', ''policy''])
               ''PNG'' (plain_table (top_table_rows sample_library sample_batch))))"
proof -
  have ne: "sample_batch \<noteq> []" by (simp add: sample_batch_def)
  show ?thesis
    using analyser_json_success [OF ne sample_batch_in_range fig_to_base64_sample
        keyword_analysis_sample fig_to_base64_sample sample_library_simps(7)]
    by (simp add: sample_library_simps)
qed

subsection \<open>Counting\<close>

lemma tally_Nil [simp]: "tally [] = []"
  by (simp add: tally_def)

lemma tally_snoc: "tally (xs @ [x]) = bump x (tally xs)"
  by (simp add: tally_def)

lemma map_fst_bump:
  "map fst (bump k kvs) = (if k \<in> fst ` set kvs then map fst kvs else map fst kvs @ [k])"
  by (induction k kvs rule: bump.induct) auto

lemma map_of_bump:
  "map_of (bump k kvs) k' =
     (if k' = k then Some (case map_of kvs k of None \<Rightarrow> 1 | Some c \<Rightarrow> c + 1) else map_of kvs k')"
  by (induction k kvs rule: bump.induct) auto

lemma sum_snd_bump: "sum_list (map snd (bump k kvs)) = Suc (sum_list (map snd kvs))"
  by (induction k kvs rule: bump.induct) auto

lemma set_keys_tally: "fst ` set (tally xs) = set xs"
proof (induction xs rule: rev_induct)
  case Nil
  show ?case by simp
next
  case (snoc x xs)
  have "set (map fst (tally (xs @ [x]))) = insert x (set xs)"
    unfolding tally_snoc map_fst_bump using snoc by auto
  then show ?case by simp
qed

lemma distinct_keys_tally: "distinct (map fst (tally xs))"
proof (induction xs rule: rev_induct)
  case Nil
  show ?case by simp
next
  case (snoc x xs)
  then show ?case
    unfolding tally_snoc map_fst_bump by auto
qed

lemma map_of_tally:
  "map_of (tally xs) k = (if k \<in> set xs then Some (count_list xs k) else None)"
proof (induction xs rule: rev_induct)
  case Nil
  show ?case by simp
next
  case (snoc x xs)
  then show ?case
    by (auto simp: tally_snoc map_of_bump count_list_0_iff)
qed

lemma tally_member:
  "(k, c) \<in> set (tally xs) \<longleftrightarrow> k \<in> set xs \<and> c = count_list xs k"
  using map_of_eq_Some_iff [OF distinct_keys_tally, of xs k c]
  by (auto simp: map_of_tally split: if_splits)

lemma sum_snd_tally: "sum_list (map snd (tally xs)) = length xs"
  by (induction xs rule: rev_induct) (simp_all add: tally_snoc sum_snd_bump)

lemma first_index_less: "x \<in> set xs \<Longrightarrow> first_index xs x < length xs"
  unfolding first_index_def by (induction xs) auto

lemma first_index_append_old: "k \<in> set xs \<Longrightarrow> first_index (xs @ ys) k = first_index xs k"
  by (simp add: first_index_def)

lemma first_index_append_new: "x \<notin> set xs \<Longrightarrow> first_index (xs @ [x]) x = length xs"
proof -
  assume "x \<notin> set xs"
  then have "takeWhile (\<lambda>y. y \<noteq> x) (xs @ [x]) = xs @ takeWhile (\<lambda>y. y \<noteq> x) [x]"
    by (intro takeWhile_append2) auto
  then show ?thesis by (simp add: first_index_def)
qed

lemma keys_tally_first_seen:
  "sorted_wrt (<) (map (first_index xs) (map fst (tally xs)))"
proof (induction xs rule: rev_induct)
  case Nil
  show ?case by simp
next
  case (snoc x xs)
  have old: "map (first_index (xs @ [x])) (map fst (tally xs)) = map (first_index xs) (map fst (tally xs))"
    by (auto simp: first_index_append_old tally_member)
  show ?case
  proof (cases "x \<in> set xs")
    case True
    then have keys: "map fst (tally (xs @ [x])) = map fst (tally xs)"
      by (simp add: tally_snoc map_fst_bump set_keys_tally)
    show ?thesis unfolding keys old by (rule snoc.IH)
  next
    case False
    then have keys: "map fst (tally (xs @ [x])) = map fst (tally xs) @ [x]"
      by (simp add: tally_snoc map_fst_bump set_keys_tally)
    have "\<forall>k \<in> set (map fst (tally xs)). first_index xs k < length xs"
      by (auto simp: first_index_less tally_member)
    with snoc False show ?thesis
      unfolding keys map_append sorted_wrt_append old
      by (simp add: first_index_append_new)
  qed
qed

subsection \<open>Sorting by a column of counts\<close>

lemma valid_argsort_mset: "valid_argsort f \<Longrightarrow> mset (f vs) = mset [0..<length vs]"
  by (simp add: valid_argsort_def)

lemma valid_argsort_set: "valid_argsort f \<Longrightarrow> set (f vs) = {0..<length vs}"
  using valid_argsort_mset [of f vs] by (metis mset_eq_setD set_upt)

lemma valid_argsort_sorted:
  "valid_argsort f \<Longrightarrow> sorted_wrt (\<lambda>a b. b \<le> a) (map (\<lambda>i. vs ! i) (f vs))"
  by (simp add: valid_argsort_def)

lemma mset_reindex:
  assumes "mset perm = mset [0..<length xs]"
  shows "mset (reindex perm xs) = mset xs"
proof -
  have "mset (reindex perm xs) = image_mset (\<lambda>i. xs ! i) (mset perm)"
    by (simp add: reindex_def)
  also have "\<dots> = mset (map (\<lambda>i. xs ! i) [0..<length xs])"
    by (simp add: assms)
  also have "\<dots> = mset xs"
    by (simp add: map_nth)
  finally show ?thesis .
qed

lemma mset_sort_values_desc:
  "valid_argsort (argsort_desc lib) \<Longrightarrow> mset (sort_values_desc lib by_col xs) = mset xs"
  unfolding sort_values_desc_def
  by (rule mset_reindex) (simp add: valid_argsort_mset)

lemma sorted_sort_values_desc:
  assumes "valid_argsort (argsort_desc lib)"
  shows "sorted_wrt (\<lambda>a b. by_col b \<le> by_col a) (sort_values_desc lib by_col xs)"
proof -
  let ?p = "argsort_desc lib (map by_col xs)"
  have "map by_col (reindex ?p xs) = map (\<lambda>i. map by_col xs ! i) ?p"
    using valid_argsort_set [OF assms, of "map by_col xs"] by (auto simp: reindex_def)
  moreover have "sorted_wrt (\<lambda>a b. b \<le> a) (map (\<lambda>i. map by_col xs ! i) ?p)"
    by (rule valid_argsort_sorted [OF assms])
  ultimately have "sorted_wrt (\<lambda>a b. b \<le> a) (map by_col (sort_values_desc lib by_col xs))"
    by (simp add: sort_values_desc_def)
  then show ?thesis by (simp add: sorted_wrt_map)
qed

lemma set_sort_values_desc:
  "valid_argsort (argsort_desc lib) \<Longrightarrow> set (sort_values_desc lib by_col xs) = set xs"
  by (metis mset_sort_values_desc mset_eq_setD)

lemma length_sort_values_desc:
  "valid_argsort (argsort_desc lib) \<Longrightarrow> length (sort_values_desc lib by_col xs) = length xs"
  by (metis mset_sort_values_desc mset_eq_length)

lemma distinct_map_sort_values_desc:
  assumes "valid_argsort (argsort_desc lib)"
  shows "distinct (map g (sort_values_desc lib by_col xs)) \<longleftrightarrow> distinct (map g xs)"
proof -
  have "mset (map g (sort_values_desc lib by_col xs)) = mset (map g xs)"
    by (simp add: mset_sort_values_desc [OF assms])
  then show ?thesis by (rule mset_eq_imp_distinct_iff)
qed

text \<open>The first \<open>n\<close> rows of a table in descending order are no smaller than the others.\<close>

lemma take_dominates_drop:
  assumes "sorted_wrt (\<lambda>a b. key b \<le> key a) xs"
    and "x \<in> set (take n xs)" and "y \<in> set (drop n xs)"
  shows "key y \<le> key x"
proof -
  from assms(1) have "sorted_wrt (\<lambda>a b. key b \<le> key a) (take n xs @ drop n xs)" by simp
  with assms(2,3) show ?thesis unfolding sorted_wrt_append by blast
qed

lemma left_out_in_drop:
  assumes "y \<in> set xs" and "y \<notin> set (take n xs)"
  shows "y \<in> set (drop n xs)"
proof -
  have "set xs = set (take n xs) \<union> set (drop n xs)"
    by (metis append_take_drop_id set_append)
  with assms show ?thesis by blast
qed

subsection \<open>\<^verbatim>\<open>value_counts\<close>\<close>

lemma mset_value_counts:
  "valid_argsort (argsort_desc lib) \<Longrightarrow> mset (value_counts lib col) = mset (tally col)"
  by (simp add: value_counts_def mset_sort_values_desc)

lemma value_counts_member:
  "valid_argsort (argsort_desc lib) \<Longrightarrow>
   (k, c) \<in> set (value_counts lib col) \<longleftrightarrow> k \<in> set col \<and> c = count_list col k"
  by (simp add: value_counts_def set_sort_values_desc tally_member)

lemma distinct_keys_value_counts:
  "valid_argsort (argsort_desc lib) \<Longrightarrow> distinct (map fst (value_counts lib col))"
  by (simp add: value_counts_def distinct_map_sort_values_desc distinct_keys_tally)

lemma sorted_value_counts:
  "valid_argsort (argsort_desc lib) \<Longrightarrow>
   sorted_wrt (\<lambda>p q. snd q \<le> snd p) (value_counts lib col)"
  by (simp add: value_counts_def sorted_sort_values_desc)

lemma length_value_counts:
  "valid_argsort (argsort_desc lib) \<Longrightarrow> length (value_counts lib col) = card (set col)"
proof -
  assume v: "valid_argsort (argsort_desc lib)"
  have "length (value_counts lib col) = length (map fst (tally col))"
    by (simp add: value_counts_def length_sort_values_desc [OF v])
  also have "\<dots> = card (set (map fst (tally col)))"
    by (rule distinct_card [symmetric]) (rule distinct_keys_tally)
  also have "\<dots> = card (set col)"
    by (simp add: set_keys_tally)
  finally show ?thesis .
qed

lemma sum_snd_value_counts:
  assumes "valid_argsort (argsort_desc lib)"
  shows "sum_list (map snd (value_counts lib col)) = length col"
proof -
  have "mset (map snd (value_counts lib col)) = mset (map snd (tally col))"
    by (simp add: mset_value_counts [OF assms])
  then have "sum_list (map snd (value_counts lib col)) = sum_list (map snd (tally col))"
    by (metis sum_mset_sum_list)
  then show ?thesis by (simp add: sum_snd_tally)
qed

lemma map_of_value_counts:
  assumes "valid_argsort (argsort_desc lib)"
  shows "map_of (value_counts lib col) k = (if k \<in> set col then Some (count_list col k) else None)"
proof (cases "k \<in> set col")
  case True
  then have "(k, count_list col k) \<in> set (value_counts lib col)"
    by (simp add: value_counts_member [OF assms])
  then show ?thesis
    using True by (simp add: distinct_keys_value_counts [OF assms])
next
  case False
  then have "k \<notin> fst ` set (value_counts lib col)"
    by (auto simp: value_counts_member [OF assms])
  then show ?thesis
    using False by (simp add: map_of_eq_None_iff)
qed

text \<open>The stable argsort of the concrete library is an argsort.\<close>

lemma valid_stable_argsort_desc: "valid_argsort stable_argsort_desc"
proof -
  have "sorted_wrt (\<lambda>a b. b \<le> a) (map (\<lambda>i. vs ! i) (stable_argsort_desc vs))" for vs :: "nat list"
  proof -
    have "sorted (map (\<lambda>i. - int (vs ! i)) (stable_argsort_desc vs))"
      unfolding stable_argsort_desc_def by (rule sorted_sort_key)
    then show ?thesis
      by (simp add: sorted_map sorted_wrt_map)
  qed
  then show ?thesis
    by (simp add: valid_argsort_def) (simp add: stable_argsort_desc_def)
qed

lemma valid_argsort_sample: "valid_argsort (argsort_desc sample_library)"
  by (simp add: sample_library_simps valid_stable_argsort_desc)

subsection \<open>Empty batches, bad timestamps, indicators\<close>

text \<open>
  C1. The claim: an empty batch runs through and gives a report whose indicators are all
  zero and whose summary paragraph is empty. The code: the frame built from an empty batch
  has no column \<^verbatim>\<open>published_at\<close>, line 51 raises \<^verbatim>\<open>KeyError\<close>, and the run ends there with no
  indicators, no document and no file written, whatever the library does.
\<close>

theorem empty_batch_raises_KeyError:
  "analyser_json lib [] file = (Inl (KeyError ''published_at''), file)"
  by (simp add: analyser_json_def articleCreatedDate_Nil)

theorem empty_batch_raises_KeyError_witness:
  "analyser_json sample_library [] None = (Inl (KeyError ''published_at''), None)"
  by (rule empty_batch_raises_KeyError)

text \<open>
  C9. If \<^verbatim>\<open>datetime.utcfromtimestamp\<close> raises on the \<^verbatim>\<open>published_at\<close> of some article of the
  batch, the run ends with that exception for an article of the batch on which it raises
  (the first one), nothing is returned but the exception, and the report file is left as
  it was.
\<close>

theorem invalid_timestamp_fails_run:
  assumes "a \<in> set batch" and "isl (utcfromtimestamp (published_at a))"
  shows "\<exists>b \<in> set batch. isl (utcfromtimestamp (published_at b)) \<and>
           analyser_json lib batch file = (Inl (TimestampError (published_at b)), file)"
proof -
  from articleCreatedDate_fails [OF assms] obtain b where
    "b \<in> set batch" "isl (utcfromtimestamp (published_at b))"
    "articleCreatedDate batch = Inl (TimestampError (published_at b))" by blast
  then show ?thesis
    by (auto simp: analyser_json_created_fails)
qed

theorem invalid_timestamp_fails_run_witness:
  "analyser_json sample_library
     [article ''ana'' 1700000000 ''positive'' [''ai''], article ''bob'' 253402300800 ''neutral'' []]
     (Some ''old report'') =
   (Inl (TimestampError 253402300800), Some ''old report'')"
proof -
  let ?bob = "article ''bob'' 253402300800 ''neutral'' []"
  let ?batch = "[article ''ana'' 1700000000 ''positive'' [''ai''], ?bob]"
  have 1: "?bob \<in> set ?batch" by simp
  have 2: "isl (utcfromtimestamp (published_at ?bob))"
    by (simp add: article_def utcfromtimestamp_def)
  from invalid_timestamp_fails_run [OF 1 2, of sample_library "Some ''old report''"]
  show ?thesis
    by (auto simp: article_def utcfromtimestamp_def)
qed

text \<open>
  C2. Whenever a run returns, the indicators it returns are: the number of articles of the
  batch as total, and for each of \<^verbatim>\<open>positive\<close>, \<^verbatim>\<open>negative\<close>, \<^verbatim>\<open>neutral\<close> the number of
  articles whose label is exactly that string. So the three add up to at most the total,
  and to the total exactly when every label is one of the three strings.
\<close>

theorem kpis_count_labels:
  assumes "analyser_json lib batch file = (Inr r, file')"
  shows "total_mentions (resp_kpis r) = length batch \<and>
         positive (resp_kpis r) = length (filter (\<lambda>a. sentiment_label a = ''positive'') batch) \<and>
         negative (resp_kpis r) = length (filter (\<lambda>a. sentiment_label a = ''negative'') batch) \<and>
         neutral (resp_kpis r) = length (filter (\<lambda>a. sentiment_label a = ''neutral'') batch) \<and>
         positive (resp_kpis r) + negative (resp_kpis r) + neutral (resp_kpis r)
           \<le> total_mentions (resp_kpis r) \<and>
         (positive (resp_kpis r) + negative (resp_kpis r) + neutral (resp_kpis r)
            = total_mentions (resp_kpis r) \<longleftrightarrow>
          (\<forall>a \<in> set batch. sentiment_label a \<in> {''positive'', ''negative'', ''neutral''}))"
proof -
  from analyser_json_Inr [OF assms] have k: "resp_kpis r = compute_kpis batch" by simp
  have parts: "length (filter (\<lambda>a. sentiment_label a = ''positive'') xs) +
               length (filter (\<lambda>a. sentiment_label a = ''negative'') xs) +
               length (filter (\<lambda>a. sentiment_label a = ''neutral'') xs) \<le> length xs \<and>
        (length (filter (\<lambda>a. sentiment_label a = ''positive'') xs) +
         length (filter (\<lambda>a. sentiment_label a = ''negative'') xs) +
         length (filter (\<lambda>a. sentiment_label a = ''neutral'') xs) = length xs \<longleftrightarrow>
         (\<forall>a \<in> set xs. sentiment_label a \<in> {''positive'', ''negative'', ''neutral''}))"
    for xs :: "Article list"
  proof (induction xs)
    case Nil
    show ?case by simp
  next
    case (Cons x xs)
    then show ?case by auto
  qed
  show ?thesis
    using parts [of batch]
    by (simp add: k compute_kpis_def count_equal_def length_filter_map o_def)
qed

theorem kpis_count_labels_witness:
  "resp_kpis (projr (fst (analyser_json sample_library sample_batch None))) =
     \<lparr>total_mentions = 3, positive = 2, negative = 1, neutral = 0\<rparr>"
proof -
  let ?run = "analyser_json sample_library sample_batch None"
  have "?run = (Inr (projr (fst ?run)), snd ?run)"
    by (simp add: analyser_json_sample)
  from kpis_count_labels [OF this] show ?thesis
    by (simp add: sample_batch_def article_def)
qed

subsection \<open>Mentions per day\<close>

lemma count_list_map_filter:
  "count_list (map f xs) y = length (filter (\<lambda>x. f x = y) xs)"
  by (induction xs) auto

lemma set_keys_value_counts:
  "valid_argsort (argsort_desc lib) \<Longrightarrow> fst ` set (value_counts lib col) = set col"
  by (simp add: value_counts_def set_sort_values_desc set_keys_tally)

lemma mentions_over_time_closed_form:
  assumes "valid_argsort (argsort_desc lib)"
  shows "mentions_over_time lib Period =
           map (\<lambda>d. (d, count_list Period d)) (sorted_list_of_set (set Period))"
proof -
  let ?s = "mentions_over_time lib Period"
  have set_s: "set ?s = set (value_counts lib Period)"
    by (simp add: mentions_over_time_def sort_index_def)
  have "mset (map fst ?s) = mset (map fst (value_counts lib Period))"
    by (simp add: mentions_over_time_def sort_index_def)
  then have "distinct (map fst ?s)"
    using distinct_keys_value_counts [OF assms, of Period] by (metis mset_eq_imp_distinct_iff)
  moreover have "sorted (map fst ?s)"
    by (simp add: mentions_over_time_def sort_index_def)
  moreover have "set (map fst ?s) = set Period"
    by (simp add: set_s set_keys_value_counts [OF assms])
  ultimately have keys: "map fst ?s = sorted_list_of_set (set Period)"
    by (intro sorted_distinct_set_unique) simp_all
  have "map (\<lambda>p. (fst p, count_list Period (fst p))) ?s = ?s"
    by (rule map_idI) (use set_s in \<open>auto simp: value_counts_member [OF assms]\<close>)
  then have "?s = map (\<lambda>d. (d, count_list Period d)) (map fst ?s)"
    by (simp add: o_def)
  then show ?thesis
    unfolding keys .
qed

text \<open>
  C3. With \<^verbatim>\<open>Period\<close> the column of calendar days of \<^verbatim>\<open>published_at\<close> (lines 51 and 65), the
  series \<^verbatim>\<open>mentions_over_time\<close> has exactly one entry per day that occurs in the batch, in
  strictly ascending order of the days, each with the number of articles published on
  that day; its counts add up to the number of articles.
\<close>

theorem daily_series_counts_per_day:
  assumes "valid_argsort (argsort_desc lib)"
    and "articleCreatedDate batch = Inr created"
    and "dt_date created = Inr Period"
  shows "mentions_over_time lib Period =
           map (\<lambda>d. (d, length (filter (\<lambda>a. utc_day (published_at a) = d) batch)))
               (sorted_list_of_set ((\<lambda>a. utc_day (published_at a)) ` set batch)) \<and>
         sorted_wrt (<) (map fst (mentions_over_time lib Period)) \<and>
         set (map fst (mentions_over_time lib Period)) = (\<lambda>a. utc_day (published_at a)) ` set batch \<and>
         sum_list (map snd (mentions_over_time lib Period)) = length batch"
proof -
  from assms(2) have "created = map published_at batch"
    by (simp add: articleCreatedDate_Inr)
  with assms(3) have Period: "Period = map (\<lambda>a. utc_day (published_at a)) batch"
    by (auto dest: dt_date_Inr)
  have form: "mentions_over_time lib Period =
           map (\<lambda>d. (d, length (filter (\<lambda>a. utc_day (published_at a) = d) batch)))
               (sorted_list_of_set ((\<lambda>a. utc_day (published_at a)) ` set batch))"
    unfolding mentions_over_time_closed_form [OF assms(1)]
    by (simp add: Period count_list_map_filter)
  have keys: "map fst (mentions_over_time lib Period) =
                sorted_list_of_set ((\<lambda>a. utc_day (published_at a)) ` set batch)"
    unfolding form by (simp add: o_def)
  have "sum_list (map snd (mentions_over_time lib Period)) =
          sum_list (map snd (value_counts lib Period))"
    by (simp add: mentions_over_time_def sort_index_def flip: sum_mset_sum_list)
  also have "\<dots> = length batch"
    by (simp add: sum_snd_value_counts [OF assms(1)] Period)
  finally have total: "sum_list (map snd (mentions_over_time lib Period)) = length batch" .
  show ?thesis
    using form total unfolding keys by simp
qed

theorem daily_series_counts_per_day_witness:
  "mentions_over_time sample_library (map (\<lambda>a. utc_day (published_at a)) busy_batch) =
     [(19675, 4), (19676, 7), (19677, 10)]"
proof -
  have c: "articleCreatedDate busy_batch = Inr (map published_at busy_batch)"
    by (rule articleCreatedDate_ok) (simp_all add: busy_batch_def article_def utcfromtimestamp_def)
  have p: "dt_date (map published_at busy_batch) =
             Inr (map (\<lambda>a. utc_day (published_at a)) busy_batch)"
    by (simp add: dt_date_def busy_batch_def article_def in_datetime64_ns_def)
  have days: "sorted_list_of_set ((\<lambda>a. utc_day (published_at a)) ` set busy_batch) =
                [19675, 19676, 19677]"
    by (simp add: busy_batch_def article_def utc_day_def)
  from daily_series_counts_per_day [OF valid_argsort_sample c p]
  show ?thesis
    unfolding days by (simp add: busy_batch_def article_def utc_day_def)
qed

subsection \<open>The ranking table\<close>

text \<open>
  C8. The ranking table has at most five rows (five, unless the batch has fewer authors);
  every row is an author of the batch with the number of that author's articles, no author
  twice; the counts do not increase down the table; and no author left out of the table
  has more articles than an author in it.
\<close>

theorem top_table_five_most_active:
  assumes "valid_argsort (argsort_desc lib)"
  shows "length (top_table_rows lib df) = min 5 (card (author ` set df)) \<and>
         distinct (map fst (top_table_rows lib df)) \<and>
         (\<forall>(a, c) \<in> set (top_table_rows lib df).
            a \<in> author ` set df \<and> c = length (filter (\<lambda>r. author r = a) df)) \<and>
         sorted_wrt (\<lambda>p q. snd q \<le> snd p) (top_table_rows lib df) \<and>
         (\<forall>b \<in> author ` set df - fst ` set (top_table_rows lib df).
            \<forall>(a, c) \<in> set (top_table_rows lib df).
              length (filter (\<lambda>r. author r = b) df) \<le> c)"
proof -
  let ?vc = "value_counts lib (map author df)"
  let ?t = "top_table_rows lib df"
  have t: "?t = take 5 ?vc" by (simp add: top_table_rows_def)
  have len: "length ?t = min 5 (card (author ` set df))"
    by (simp add: t length_value_counts [OF assms] min.commute)
  have dist: "distinct (map fst ?t)"
    unfolding t take_map [symmetric]
    by (rule distinct_take) (rule distinct_keys_value_counts [OF assms])
  have rows: "\<forall>(a, c) \<in> set ?t. a \<in> author ` set df \<and> c = length (filter (\<lambda>r. author r = a) df)"
  proof (clarify, intro conjI)
    fix a c assume "(a, c) \<in> set ?t"
    then have "(a, c) \<in> set ?vc" unfolding t by (rule in_set_takeD)
    then have *: "a \<in> set (map author df) \<and> c = count_list (map author df) a"
      by (simp add: value_counts_member [OF assms])
    from * show "a \<in> author ` set df" by simp
    from * show "c = length (filter (\<lambda>r. author r = a) df)"
      by (simp add: count_list_map_filter)
  qed
  have sorted: "sorted_wrt (\<lambda>p q. snd q \<le> snd p) ?t"
    unfolding t by (rule sorted_wrt_take) (rule sorted_value_counts [OF assms])
  have omitted: "\<forall>b \<in> author ` set df - fst ` set ?t. \<forall>(a, c) \<in> set ?t.
                   length (filter (\<lambda>r. author r = b) df) \<le> c"
  proof (clarify)
    fix r a c
    assume r: "r \<in> set df" and out: "author r \<notin> fst ` set ?t" and ac: "(a, c) \<in> set ?t"
    let ?b = "author r"
    let ?y = "(?b, count_list (map author df) ?b)"
    from r have "?y \<in> set ?vc"
      by (simp add: value_counts_member [OF assms])
    moreover from out have "?y \<notin> set (take 5 ?vc)"
      unfolding t by force
    ultimately have "?y \<in> set (drop 5 ?vc)" by (rule left_out_in_drop)
    from take_dominates_drop [OF sorted_value_counts [OF assms] ac [unfolded t] this]
    show "length (filter (\<lambda>x. author x = ?b) df) \<le> c"
      by (simp add: count_list_map_filter)
  qed
  from len dist rows sorted omitted show ?thesis by blast
qed

theorem top_table_five_most_active_witness:
  "top_table_rows sample_library busy_batch = [(''g'', 4), (''a'', 3), (''c'', 2), (''e'', 2), (''i'', 2)] \<and>
   length (filter (\<lambda>r. author r = ''l'') busy_batch) \<le> 2"
proof -
  have rows: "top_table_rows sample_library busy_batch =
                [(''g'', 4), (''a'', 3), (''c'', 2), (''e'', 2), (''i'', 2)]"
    by code_simp
  have l: "''l'' \<in> author ` set busy_batch - fst ` set (top_table_rows sample_library busy_batch)"
    unfolding rows by (simp add: busy_batch_def article_def)
  from top_table_five_most_active [OF valid_argsort_sample, of busy_batch] l
  have "\<forall>(a, c) \<in> set (top_table_rows sample_library busy_batch).
          length (filter (\<lambda>r. author r = ''l'') busy_batch) \<le> c"
    by blast
  then show ?thesis
    unfolding rows by simp
qed

subsection \<open>The table of authors and labels\<close>

lemma sort_remdups_image:
  "sort (remdups (map f xs)) = sorted_list_of_set (f ` set xs)"
  by (simp add: sorted_list_of_set_sort_remdups [symmetric])

lemma map_of_graph:
  "map_of (map (\<lambda>k. (k, f k)) ks) k = (if k \<in> set ks then Some (f k) else None)"
  by (induction ks) auto

lemma groupby_size_lookup:
  "(case map_of (groupby_size pairs) p of Some n \<Rightarrow> n | None \<Rightarrow> 0) = count_list pairs p"
  by (simp add: groupby_size_def map_of_graph count_list_0_iff)

lemma author_sentiment_closed_form:
  "author_sentiment df =
     \<lparr>columns = sorted_list_of_set (sentiment_label ` set df),
      rows = map (\<lambda>a. (a, map (\<lambda>l. length (filter (\<lambda>r. author r = a \<and> sentiment_label r = l) df))
                              (sorted_list_of_set (sentiment_label ` set df))))
                 (sorted_list_of_set (author ` set df))\<rparr>"
proof -
  let ?pairs = "map (\<lambda>a. (author a, sentiment_label a)) df"
  have keys: "map (\<lambda>kv. snd (fst kv)) (groupby_size ?pairs) = map snd (sort (remdups ?pairs))"
    "map (\<lambda>kv. fst (fst kv)) (groupby_size ?pairs) = map fst (sort (remdups ?pairs))"
    by (simp_all add: groupby_size_def o_def)
  have cols: "sort (remdups (map snd (sort (remdups ?pairs)))) = sorted_list_of_set (sentiment_label ` set df)"
    by (simp add: sort_remdups_image image_image)
  have idx: "sort (remdups (map fst (sort (remdups ?pairs)))) = sorted_list_of_set (author ` set df)"
    by (simp add: sort_remdups_image image_image)
  have cnt: "count_list ?pairs (a, l) = length (filter (\<lambda>r. author r = a \<and> sentiment_label r = l) df)"
    for a l
    by (simp add: count_list_map_filter)
  show ?thesis
    unfolding author_sentiment_def unstack_def Let_def keys cols idx groupby_size_lookup cnt ..
qed

lemma sum_indicator:
  "distinct cols \<Longrightarrow> sum_list (map (\<lambda>l. if l = x then (1::nat) else 0) cols) = (if x \<in> set cols then 1 else 0)"
  by (induction cols) auto

lemma sum_label_counts:
  assumes "distinct cols" and "sentiment_label ` set df \<subseteq> set cols"
  shows "sum_list (map (\<lambda>l. length (filter (\<lambda>r. author r = a \<and> sentiment_label r = l) df)) cols) =
           length (filter (\<lambda>r. author r = a) df)"
  using assms(2)
proof (induction df)
  case Nil
  show ?case by simp
next
  case (Cons r df)
  then have IH: "sum_list (map (\<lambda>l. length (filter (\<lambda>r. author r = a \<and> sentiment_label r = l) df)) cols) =
           length (filter (\<lambda>r. author r = a) df)"
    and r: "sentiment_label r \<in> set cols" by auto
  show ?case
  proof (cases "author r = a")
    case False
    then show ?thesis using IH by simp
  next
    case True
    have "sum_list (map (\<lambda>l. length (filter (\<lambda>r. author r = a \<and> sentiment_label r = l) (r # df))) cols) =
          sum_list (map (\<lambda>l. (if l = sentiment_label r then 1 else 0) +
                               length (filter (\<lambda>r. author r = a \<and> sentiment_label r = l) df)) cols)"
      using True by (intro arg_cong [where f = sum_list] map_cong) auto
    also have "\<dots> = (if sentiment_label r \<in> set cols then 1 else 0) + length (filter (\<lambda>r. author r = a) df)"
      by (simp add: sum_list_addf sum_indicator [OF assms(1)] IH)
    finally show ?thesis using True r by simp
  qed
qed

lemma row_sums_author_sentiment:
  "row_sums (author_sentiment df) =
     map (\<lambda>a. length (filter (\<lambda>r. author r = a) df)) (sorted_list_of_set (author ` set df))"
  by (simp add: author_sentiment_closed_form row_sums_def o_def sum_label_counts)

text \<open>
  C10. In the table of line 103, before any restriction to ten authors: the columns are the
  labels that occur in the batch, the rows are the authors of the batch, a cell is the
  number of articles of that author with that label, and the sum of an author's row (what
  line 104 stores as \<^verbatim>\<open>Total\<close>) is exactly the count \<^verbatim>\<open>value_counts\<close> gives that author for
  the ranking table.
\<close>

theorem row_totals_agree_with_value_counts:
  assumes "valid_argsort (argsort_desc lib)"
  shows "columns (author_sentiment df) = sorted_list_of_set (sentiment_label ` set df) \<and>
         fst ` set (rows (author_sentiment df)) = author ` set df \<and>
         (\<forall>(a, cells) \<in> set (rows (author_sentiment df)).
            cells = map (\<lambda>l. length (filter (\<lambda>r. author r = a \<and> sentiment_label r = l) df))
                        (columns (author_sentiment df)) \<and>
            map_of (value_counts lib (map author df)) a = Some (sum_list cells))"
proof -
  have "map_of (value_counts lib (map author df)) a =
          Some (sum_list (map (\<lambda>l. length (filter (\<lambda>r. author r = a \<and> sentiment_label r = l) df))
                              (sorted_list_of_set (sentiment_label ` set df))))"
    if "a \<in> author ` set df" for a
    using that
    by (simp add: map_of_value_counts [OF assms] sum_label_counts count_list_map_filter)
  then show ?thesis
    unfolding author_sentiment_closed_form by (simp add: image_image)
qed


lemma rows_author_sentiment_busy:
  "rows (author_sentiment busy_batch) =
     [(''a'', [0, 0, 1, 1, 1]), (''b'', [0, 0, 0, 1, 0]), (''c'', [0, 0, 1, 0, 1]),
      (''d'', [0, 1, 0, 0, 0]), (''e'', [0, 0, 1, 0, 1]), (''f'', [0, 0, 0, 1, 0]),
      (''g'', [0, 0, 1, 1, 2]), (''h'', [0, 0, 0, 0, 1]), (''i'', [0, 0, 0, 1, 1]),
      (''j'', [1, 0, 0, 0, 0]), (''k'', [0, 0, 1, 0, 0]), (''l'', [0, 0, 0, 0, 2])]"
  by code_simp

theorem row_totals_agree_with_value_counts_witness:
  "(''g'', [0, 0, 1, 1, 2]) \<in> set (rows (author_sentiment busy_batch)) \<and>
   map_of (value_counts sample_library (map author busy_batch)) ''g'' = Some 4"
proof -
  have g: "(''g'', [0, 0, 1, 1, 2]) \<in> set (rows (author_sentiment busy_batch))"
    unfolding rows_author_sentiment_busy by simp
  from row_totals_agree_with_value_counts [OF valid_argsort_sample, of busy_batch]
  have "\<forall>(a, cells) \<in> set (rows (author_sentiment busy_batch)).
          map_of (value_counts sample_library (map author busy_batch)) a = Some (sum_list cells)"
    by fast
  from bspec [OF this g] g show ?thesis by simp
qed

subsection \<open>The ten most active authors\<close>

lemma zip_graph: "zip xs (map f xs) = map (\<lambda>x. (x, f x)) xs"
  by (induction xs) auto

lemma reindex_map:
  "set perm \<subseteq> {0..<length xs} \<Longrightarrow> reindex perm (map f xs) = map f (reindex perm xs)"
  by (auto simp: reindex_def)

lemma reindex_zip:
  assumes "set perm \<subseteq> {0..<length xs}" and "length ys = length xs"
  shows "reindex perm (zip xs ys) = zip (reindex perm xs) (reindex perm ys)"
proof -
  have "map (\<lambda>i. zip xs ys ! i) perm = map (\<lambda>i. (xs ! i, ys ! i)) perm"
    using assms by (intro map_cong) auto
  also have "\<dots> = zip (map (\<lambda>i. xs ! i) perm) (map (\<lambda>i. ys ! i) perm)"
    by (simp add: zip_map_map zip_same_conv_map)
  finally show ?thesis by (simp add: reindex_def)
qed

text \<open>
  A frame whose cells are given by a function of row label and column label, with one
  further value per row.
\<close>

lemma set_column_graph:
  assumes "distinct cols" and "length vals = length idx"
  shows "set_column name vals \<lparr>columns = cols, rows = map (\<lambda>a. (a, map (h a) cols)) idx\<rparr> =
           \<lparr>columns = (if name \<in> set cols then cols else cols @ [name]),
            rows = map (\<lambda>(a, v). (a, map (\<lambda>c. if c = name then v else h a c)
                                          (if name \<in> set cols then cols else cols @ [name])))
                       (zip idx vals)\<rparr>"
proof (cases "name \<in> set cols")
  case True
  then show ?thesis
    by (simp add: set_column_def zip_map1 zip_graph o_def case_prod_unfold)
next
  case False
  then have "map (\<lambda>c. if c = name then v else h a c) cols = map (h a) cols" for v a
    by (intro map_cong) auto
  with False show ?thesis
    by (simp add: set_column_def zip_map1 o_def case_prod_unfold)
qed

lemma cell_graph:
  "name \<in> set cols \<Longrightarrow> cell cols name (a, map k cols) = k name"
  by (simp add: cell_def zip_graph map_of_graph)

lemma drop_column_row:
  "map snd (filter (\<lambda>cx. fst cx \<noteq> name) (zip cols (map k cols))) = map k (filter (\<lambda>c. c \<noteq> name) cols)"
  by (induction cols) auto

lemma top_authors_sentiment_closed_form:
  assumes "valid_argsort (argsort_desc lib)"
  shows "top_authors_sentiment lib df =
     \<lparr>columns = filter (\<lambda>l. l \<noteq> ''Total'') (sorted_list_of_set (sentiment_label ` set df)),
      rows = rev (map (\<lambda>a. (a, map (\<lambda>l. length (filter (\<lambda>r. author r = a \<and> sentiment_label r = l) df))
                                   (filter (\<lambda>l. l \<noteq> ''Total'') (sorted_list_of_set (sentiment_label ` set df)))))
                 (take 10 (sort_values_desc lib (\<lambda>a. length (filter (\<lambda>r. author r = a) df))
                                            (sorted_list_of_set (author ` set df)))))\<rparr>"
proof -
  define cols where "cols = sorted_list_of_set (sentiment_label ` set df)"
  define idx where "idx = sorted_list_of_set (author ` set df)"
  define h where "h a l = length (filter (\<lambda>r. author r = a \<and> sentiment_label r = l) df)" for a l
  define total where "total a = length (filter (\<lambda>r. author r = a) df)" for a
  define cg where "cg = (if ''Total'' \<in> set cols then cols else cols @ [''Total''])"
  define F where "F a = (a, map (\<lambda>c. if c = ''Total'' then total a else h a c) cg)" for a
  define ranked where "ranked = sort_values_desc lib total idx"
  have table: "author_sentiment df = \<lparr>columns = cols, rows = map (\<lambda>a. (a, map (h a) cols)) idx\<rparr>"
    unfolding cols_def idx_def h_def by (rule author_sentiment_closed_form)
  have sums: "row_sums (author_sentiment df) = map total idx"
    unfolding idx_def total_def by (rule row_sums_author_sentiment)
  have dist: "distinct cols" by (simp add: cols_def)
  have "set_column ''Total'' (map total idx) \<lparr>columns = cols, rows = map (\<lambda>a. (a, map (h a) cols)) idx\<rparr> =
          \<lparr>columns = cg,
           rows = map (\<lambda>(a, v). (a, map (\<lambda>c. if c = ''Total'' then v else h a c) cg)) (zip idx (map total idx))\<rparr>"
    unfolding cg_def by (rule set_column_graph) (simp_all add: dist)
  then have with_total:
    "set_column ''Total'' (row_sums (author_sentiment df)) (author_sentiment df) =
       \<lparr>columns = cg, rows = map F idx\<rparr>"
    by (simp add: table [symmetric] sums zip_graph o_def F_def)
  have T: "''Total'' \<in> set cg" by (simp add: cg_def)
  have key: "map (cell cg ''Total'') (map F idx) = map total idx"
    by (simp add: F_def cell_graph [OF T] o_def)
  have perm: "set (argsort_desc lib (map total idx)) \<subseteq> {0..<length idx}"
    using valid_argsort_set [OF assms, of "map total idx"] by simp
  have sorted_rows: "sort_values_desc lib (cell cg ''Total'') (map F idx) = map F ranked"
    by (simp add: sort_values_desc_def key reindex_map [OF perm] ranked_def del: map_map)
  have cols': "filter (\<lambda>c. c \<noteq> ''Total'') cg = filter (\<lambda>l. l \<noteq> ''Total'') cols"
    by (simp add: cg_def)
  have dropped: "(fst (F a), map snd (filter (\<lambda>cx. fst cx \<noteq> ''Total'') (zip cg (snd (F a))))) =
                 (a, map (h a) (filter (\<lambda>l. l \<noteq> ''Total'') cols))" for a
  proof -
    have "map (\<lambda>c. if c = ''Total'' then total a else h a c) (filter (\<lambda>c. c \<noteq> ''Total'') cg) =
          map (h a) (filter (\<lambda>c. c \<noteq> ''Total'') cg)"
      by (intro map_cong) auto
    then show ?thesis
      by (simp add: F_def drop_column_row cols')
  qed
  have "top_authors_sentiment lib df =
          \<lparr>columns = filter (\<lambda>l. l \<noteq> ''Total'') cols,
           rows = rev (map (\<lambda>a. (a, map (h a) (filter (\<lambda>l. l \<noteq> ''Total'') cols))) (take 10 ranked))\<rparr>"
    by (simp add: top_authors_sentiment_def Let_def with_total sort_values_by_def head_def
        drop_column_def iloc_reversed_def sorted_rows take_map cols' dropped o_def rev_map)
  then show ?thesis
    unfolding cols_def h_def ranked_def total_def idx_def .
qed

text \<open>
  What lines 103-106 hand to the bar chart, for every batch. The columns are the labels of
  the batch in ascending order, without the column named \<^verbatim>\<open>Total\<close> that lines 104-105 add
  and drop. There are ten rows, or as many as the batch has authors when these are fewer,
  no author twice; a row holds, per column, the number of the author's articles with that
  label; the authors' totals do not decrease from the top row to the bottom row; and no
  author left out has a larger total than an author in the table.
\<close>

lemma top_authors_sentiment_ten_largest:
  assumes "valid_argsort (argsort_desc lib)"
  shows "columns (top_authors_sentiment lib df) =
           filter (\<lambda>l. l \<noteq> ''Total'') (sorted_list_of_set (sentiment_label ` set df)) \<and>
         length (rows (top_authors_sentiment lib df)) = min 10 (card (author ` set df)) \<and>
         distinct (map fst (rows (top_authors_sentiment lib df))) \<and>
         (\<forall>(a, cells) \<in> set (rows (top_authors_sentiment lib df)).
            a \<in> author ` set df \<and>
            cells = map (\<lambda>l. length (filter (\<lambda>r. author r = a \<and> sentiment_label r = l) df))
                        (columns (top_authors_sentiment lib df))) \<and>
         sorted (map (\<lambda>row. length (filter (\<lambda>r. author r = fst row) df))
                     (rows (top_authors_sentiment lib df))) \<and>
         (\<forall>b \<in> author ` set df - fst ` set (rows (top_authors_sentiment lib df)).
            \<forall>a \<in> fst ` set (rows (top_authors_sentiment lib df)).
              length (filter (\<lambda>r. author r = b) df) \<le> length (filter (\<lambda>r. author r = a) df))"
proof -
  define total where "total a = length (filter (\<lambda>r. author r = a) df)" for a
  define idx where "idx = sorted_list_of_set (author ` set df)"
  define ranked where "ranked = sort_values_desc lib total idx"
  define cols where "cols = filter (\<lambda>l. l \<noteq> ''Total'') (sorted_list_of_set (sentiment_label ` set df))"
  define row where
    "row a = (a, map (\<lambda>l. length (filter (\<lambda>r. author r = a \<and> sentiment_label r = l) df)) cols)" for a
  let ?M = "top_authors_sentiment lib df"
  have M: "?M = \<lparr>columns = cols, rows = rev (map row (take 10 ranked))\<rparr>"
    unfolding cols_def row_def ranked_def total_def idx_def
    by (rule top_authors_sentiment_closed_form [OF assms])
  have names: "map fst (rows ?M) = rev (take 10 ranked)"
    by (simp add: M rev_map o_def row_def)
  have set_ranked: "set ranked = author ` set df"
    by (simp add: ranked_def set_sort_values_desc [OF assms] idx_def)
  have "distinct (map (\<lambda>a. a) ranked)"
    unfolding ranked_def distinct_map_sort_values_desc [OF assms] by (simp add: idx_def)
  then have dist: "distinct ranked" by simp
  have desc: "sorted_wrt (\<lambda>a b. total b \<le> total a) ranked"
    unfolding ranked_def by (rule sorted_sort_values_desc [OF assms])
  have 1: "columns ?M = cols" by (simp add: M)
  have "length ranked = card (author ` set df)"
    by (simp add: ranked_def length_sort_values_desc [OF assms] idx_def)
  then have 2: "length (rows ?M) = min 10 (card (author ` set df))"
    by (simp add: M min.commute)
  have 3: "distinct (map fst (rows ?M))"
    unfolding names using dist by simp
  have 4: "\<forall>(a, cells) \<in> set (rows ?M). a \<in> author ` set df \<and>
             cells = map (\<lambda>l. length (filter (\<lambda>r. author r = a \<and> sentiment_label r = l) df)) (columns ?M)"
    using set_ranked by (auto simp: M row_def dest: in_set_takeD)
  have "sorted_wrt (\<lambda>a b. total b \<le> total a) (take 10 ranked)"
    using desc by (rule sorted_wrt_take)
  then have "sorted_wrt (\<lambda>a b. total a \<le> total b) (rev (take 10 ranked))"
    by (simp add: sorted_wrt_rev)
  then have "sorted (map total (map fst (rows ?M)))"
    unfolding names by (simp add: sorted_wrt_map)
  then have 5: "sorted (map (\<lambda>row. total (fst row)) (rows ?M))"
    by (simp add: o_def)
  have 6: "\<forall>b \<in> author ` set df - fst ` set (rows ?M). \<forall>a \<in> fst ` set (rows ?M). total b \<le> total a"
  proof (intro ballI)
    fix b a
    assume b: "b \<in> author ` set df - fst ` set (rows ?M)" and a: "a \<in> fst ` set (rows ?M)"
    have in_table: "fst ` set (rows ?M) = set (take 10 ranked)"
      using names by (metis set_map set_rev)
    from b have "b \<in> set ranked" "b \<notin> set (take 10 ranked)"
      by (simp_all add: set_ranked in_table)
    then have "b \<in> set (drop 10 ranked)" by (rule left_out_in_drop)
    from take_dominates_drop [OF desc a [unfolded in_table] this]
    show "total b \<le> total a" .
  qed
  from 1 2 3 4 5 6 show ?thesis
    unfolding total_def cols_def by blast
qed

lemma authors_top_busy:
  "map fst (rows (top_authors_sentiment sample_library busy_batch)) =
     [''h'', ''f'', ''d'', ''b'', ''l'', ''i'', ''e'', ''c'', ''a'', ''g'']"
  by code_simp

lemma labels_busy:
  "sorted_list_of_set (sentiment_label ` set busy_batch) =
     [''Positive'', ''mixed'', ''negative'', ''neutral'', ''positive'']"
  by code_simp

lemma authors_busy:
  "sorted_list_of_set (author ` set busy_batch) =
     [''a'', ''b'', ''c'', ''d'', ''e'', ''f'', ''g'', ''h'', ''i'', ''j'', ''k'', ''l'']"
  by code_simp

lemma card_authors_busy: "card (author ` set busy_batch) = 12"
proof -
  have "length (sorted_list_of_set (author ` set busy_batch)) = card (author ` set busy_batch)"
    by simp
  then show ?thesis unfolding authors_busy by simp
qed

lemma set_authors_busy:
  "author ` set busy_batch =
     set [''a'', ''b'', ''c'', ''d'', ''e'', ''f'', ''g'', ''h'', ''i'', ''j'', ''k'', ''l'']"
proof -
  have "set (sorted_list_of_set (author ` set busy_batch)) = author ` set busy_batch"
    by simp
  then show ?thesis unfolding authors_busy by simp
qed

lemma set_authors_top_busy:
  "fst ` set (rows (top_authors_sentiment sample_library busy_batch)) =
     set [''h'', ''f'', ''d'', ''b'', ''l'', ''i'', ''e'', ''c'', ''a'', ''g'']"
proof -
  have "fst ` set (rows (top_authors_sentiment sample_library busy_batch)) =
          set (map fst (rows (top_authors_sentiment sample_library busy_batch)))"
    by simp
  then show ?thesis unfolding authors_top_busy .
qed

lemma top_authors_sentiment_ten_largest_busy:
  "columns (top_authors_sentiment sample_library busy_batch) =
     [''Positive'', ''mixed'', ''negative'', ''neutral'', ''positive''] \<and>
   length (rows (top_authors_sentiment sample_library busy_batch)) = 10 \<and>
   length (filter (\<lambda>r. author r = ''k'') busy_batch) \<le> length (filter (\<lambda>r. author r = ''h'') busy_batch)"
proof (intro conjI)
  let ?M = "top_authors_sentiment sample_library busy_batch"
  note inst = top_authors_sentiment_ten_largest [OF valid_argsort_sample, of busy_batch]
  from inst have "columns ?M =
      filter (\<lambda>l. l \<noteq> ''Total'') (sorted_list_of_set (sentiment_label ` set busy_batch))"
    by (elim conjE)
  then show "columns ?M = [''Positive'', ''mixed'', ''negative'', ''neutral'', ''positive'']"
    unfolding labels_busy by simp
  from inst have "length (rows ?M) = min 10 (card (author ` set busy_batch))"
    by (elim conjE)
  then show "length (rows ?M) = 10"
    unfolding card_authors_busy by simp
  have k: "''k'' \<in> author ` set busy_batch - fst ` set (rows ?M)"
    unfolding set_authors_busy set_authors_top_busy by simp
  have h: "''h'' \<in> fst ` set (rows ?M)"
    unfolding set_authors_top_busy by simp
  from inst have "\<forall>b \<in> author ` set busy_batch - fst ` set (rows ?M). \<forall>a \<in> fst ` set (rows ?M).
      length (filter (\<lambda>r. author r = b) busy_batch) \<le> length (filter (\<lambda>r. author r = a) busy_batch)"
    by (elim conjE)
  from bspec [OF bspec [OF this k] h]
  show "length (filter (\<lambda>r. author r = ''k'') busy_batch) \<le> length (filter (\<lambda>r. author r = ''h'') busy_batch)" .
qed

text \<open>
  C7. The claim: the matrix of the chart is the table of counts by author and sentiment
  label, for the ten authors with the largest totals, with the totals column dropped and
  the rows reversed. The code: line 104 stores the totals in a column named \<^verbatim>\<open>Total\<close>. When
  a sentiment label of the batch is itself the string \<^verbatim>\<open>Total\<close>, the table of line 103
  already has a column of that name, line 104 overwrites its counts with the totals, and
  line 105 drops it. On the batch of two articles of \<^verbatim>\<open>ana\<close> labelled \<^verbatim>\<open>Total\<close> and one of
  \<^verbatim>\<open>bob\<close> labelled \<^verbatim>\<open>positive\<close>, the table of line 103 has the columns \<^verbatim>\<open>Total\<close> and
  \<^verbatim>\<open>positive\<close>; the matrix of the chart has the column \<^verbatim>\<open>positive\<close> only, and the row of
  \<^verbatim>\<open>ana\<close> holds no article at all.
\<close>

theorem total_label_column_lost:
  "author_sentiment total_label_batch =
     \<lparr>columns = [''Total'', ''positive''], rows = [(''ana'', [2, 0]), (''bob'', [0, 1])]\<rparr> \<and>
   top_authors_sentiment sample_library total_label_batch =
     \<lparr>columns = [''positive''], rows = [(''bob'', [1]), (''ana'', [0])]\<rparr>"
  by code_simp

subsection \<open>Keyword frequencies and the six most common\<close>

lemma sorted_wrt_insort_key_stable:
  assumes "sorted_wrt (\<lambda>a b. f a < f b \<or> (f a = f b \<and> P a b)) ys"
    and "\<forall>y \<in> set ys. P x y"
  shows "sorted_wrt (\<lambda>a b. f a < f b \<or> (f a = f b \<and> P a b)) (insort_key f x ys)"
  using assms
proof (induction ys)
  case Nil
  show ?case by simp
next
  case (Cons y ys)
  show ?case
  proof (cases "f x \<le> f y")
    case True
    with Cons.prems show ?thesis by (auto simp: set_insort_key)
  next
    case False
    with Cons show ?thesis by (auto simp: set_insort_key)
  qed
qed

lemma sorted_wrt_sort_key_stable:
  assumes "sorted_wrt P xs"
  shows "sorted_wrt (\<lambda>a b. f a < f b \<or> (f a = f b \<and> P a b)) (sort_key f xs)"
  using assms
proof (induction xs)
  case Nil
  show ?case by simp
next
  case (Cons x xs)
  then show ?case
    by (simp add: sorted_wrt_insort_key_stable)
qed

lemma Counter_first_seen:
  "sorted_wrt (\<lambda>p q. first_index kws (fst p) < first_index kws (fst q)) (Counter kws)"
  using keys_tally_first_seen [of kws] by (simp add: Counter_def sorted_wrt_map)

lemma ranking_sorted:
  "sorted_wrt (ranks_before kws) (sort_key (\<lambda>kc. - int (snd kc)) (Counter kws))"
proof -
  have "ranks_before kws =
          (\<lambda>a b. - int (snd a) < - int (snd b) \<or>
                  (- int (snd a) = - int (snd b) \<and> first_index kws (fst a) < first_index kws (fst b)))"
    by (auto simp: ranks_before_def fun_eq_iff)
  then show ?thesis
    using sorted_wrt_sort_key_stable [OF Counter_first_seen, of "\<lambda>kc. - int (snd kc)" kws] by simp
qed

text \<open>
  C4. The keyword list of line 76 is the concatenation of the lower-cased keyword lists of
  the articles, in order. \<^verbatim>\<open>Counter\<close> of it holds every distinct keyword once, with the
  number of its occurrences, so its counts add up to the number of keyword occurrences of
  the whole batch. \<^verbatim>\<open>most_common(6)\<close> gives six of its entries (all, when there are fewer),
  in the order "higher count first, and among equal counts the keyword seen first"; every
  entry it leaves out comes after every entry it gives in that order. The top keywords are
  the keywords of these entries.
\<close>

theorem keyword_frequency_top_six:
  "all_keywords lib df = concat (map (\<lambda>a. map (str_lower lib) (keywords a)) df) \<and>
   distinct (map fst (Counter (all_keywords lib df))) \<and>
   (\<forall>k c. (k, c) \<in> set (Counter (all_keywords lib df)) \<longleftrightarrow>
      k \<in> set (all_keywords lib df) \<and> c = count_list (all_keywords lib df) k) \<and>
   sum_list (map snd (Counter (all_keywords lib df))) = sum_list (map (\<lambda>a. length (keywords a)) df) \<and>
   top_keywords_of (all_keywords lib df) = map fst (most_common 6 (Counter (all_keywords lib df))) \<and>
   length (most_common 6 (Counter (all_keywords lib df))) = min 6 (card (set (all_keywords lib df))) \<and>
   set (most_common 6 (Counter (all_keywords lib df))) \<subseteq> set (Counter (all_keywords lib df)) \<and>
   sorted_wrt (ranks_before (all_keywords lib df)) (most_common 6 (Counter (all_keywords lib df))) \<and>
   (\<forall>q \<in> set (Counter (all_keywords lib df)) - set (most_common 6 (Counter (all_keywords lib df))).
      \<forall>p \<in> set (most_common 6 (Counter (all_keywords lib df))).
        ranks_before (all_keywords lib df) p q)"
proof -
  define kws where "kws = all_keywords lib df"
  define ranking where "ranking = sort_key (\<lambda>kc. - int (snd kc)) (Counter kws)"
  have top: "most_common 6 (Counter kws) = take 6 ranking"
    by (simp add: most_common_def ranking_def)
  have sorted: "sorted_wrt (ranks_before kws) ranking"
    unfolding ranking_def by (rule ranking_sorted)
  have set_ranking: "set ranking = set (Counter kws)"
    by (simp add: ranking_def)
  have 1: "kws = concat (map (\<lambda>a. map (str_lower lib) (keywords a)) df)"
    by (simp add: kws_def all_keywords_def)
  have 2: "distinct (map fst (Counter kws))"
    by (simp add: Counter_def distinct_keys_tally)
  have 3: "\<forall>k c. (k, c) \<in> set (Counter kws) \<longleftrightarrow> k \<in> set kws \<and> c = count_list kws k"
    by (simp add: Counter_def tally_member)
  have "sum_list (map snd (Counter kws)) = length kws"
    by (simp add: Counter_def sum_snd_tally)
  also have "\<dots> = sum_list (map (\<lambda>a. length (keywords a)) df)"
    by (simp add: 1 length_concat o_def)
  finally have 4: "sum_list (map snd (Counter kws)) = sum_list (map (\<lambda>a. length (keywords a)) df)" .
  have 5: "top_keywords_of kws = map fst (most_common 6 (Counter kws))"
    by (simp add: top_keywords_of_def)
  have "length (Counter kws) = card (set kws)"
    using distinct_card [OF distinct_keys_tally, of kws]
    by (simp add: Counter_def set_keys_tally)
  then have 6: "length (most_common 6 (Counter kws)) = min 6 (card (set kws))"
    by (simp add: top ranking_def min.commute)
  have 7: "set (most_common 6 (Counter kws)) \<subseteq> set (Counter kws)"
    unfolding top set_ranking [symmetric] by (rule set_take_subset)
  have 8: "sorted_wrt (ranks_before kws) (most_common 6 (Counter kws))"
    unfolding top using sorted by (rule sorted_wrt_take)
  have 9: "\<forall>q \<in> set (Counter kws) - set (most_common 6 (Counter kws)).
             \<forall>p \<in> set (most_common 6 (Counter kws)). ranks_before kws p q"
  proof (intro ballI)
    fix q p
    assume q: "q \<in> set (Counter kws) - set (most_common 6 (Counter kws))"
      and p: "p \<in> set (most_common 6 (Counter kws))"
    from q have "q \<in> set ranking" "q \<notin> set (take 6 ranking)"
      by (simp_all add: top set_ranking)
    then have "q \<in> set (drop 6 ranking)" by (rule left_out_in_drop)
    moreover from sorted have "sorted_wrt (ranks_before kws) (take 6 ranking @ drop 6 ranking)"
      by simp
    ultimately show "ranks_before kws p q"
      using p unfolding top sorted_wrt_append by blast
  qed
  from 1 2 3 4 5 6 7 8 9 show ?thesis
    unfolding kws_def by blast
qed

lemma most_common_busy:
  "most_common 6 (Counter (all_keywords sample_library busy_batch)) =
     [(''tax'', 4), (''budget'', 3), (''health'', 2), (''energy'', 2), (''school'', 2), (''rail'', 1)]"
  by code_simp

lemma Counter_busy:
  "Counter (all_keywords sample_library busy_batch) =
     [(''budget'', 3), (''tax'', 4), (''health'', 2), (''energy'', 2), (''school'', 2),
      (''rail'', 1), (''water'', 1), (''port'', 1)]"
  by code_simp

theorem keyword_frequency_top_six_witness:
  "top_keywords_of (all_keywords sample_library busy_batch) =
     [''tax'', ''budget'', ''health'', ''energy'', ''school'', ''rail''] \<and>
   ranks_before (all_keywords sample_library busy_batch) (''health'', 2) (''energy'', 2) \<and>
   ranks_before (all_keywords sample_library busy_batch) (''rail'', 1) (''water'', 1) \<and>
   sum_list (map (\<lambda>a. length (keywords a)) busy_batch) = 16"
proof (intro conjI)
  let ?kws = "all_keywords sample_library busy_batch"
  note inst = keyword_frequency_top_six [of sample_library busy_batch]
  from inst have "top_keywords_of ?kws = map fst (most_common 6 (Counter ?kws))"
    by (elim conjE)
  then show "top_keywords_of ?kws = [''tax'', ''budget'', ''health'', ''energy'', ''school'', ''rail'']"
    unfolding most_common_busy by simp
  from inst have "sorted_wrt (ranks_before ?kws) (most_common 6 (Counter ?kws))"
    by (elim conjE)
  then show "ranks_before ?kws (''health'', 2) (''energy'', 2)"
    unfolding most_common_busy by simp
  from inst have "\<forall>q \<in> set (Counter ?kws) - set (most_common 6 (Counter ?kws)).
      \<forall>p \<in> set (most_common 6 (Counter ?kws)). ranks_before ?kws p q"
    by (elim conjE)
  then show "ranks_before ?kws (''rail'', 1) (''water'', 1)"
    unfolding most_common_busy unfolding Counter_busy by simp
  from inst have "sum_list (map snd (Counter ?kws)) = sum_list (map (\<lambda>a. length (keywords a)) busy_batch)"
    by (elim conjE)
  then show "sum_list (map (\<lambda>a. length (keywords a)) busy_batch) = 16"
    unfolding Counter_busy by simp
qed

subsection \<open>The summary sentence\<close>

lemma top_keywords_of_nonempty: "kws \<noteq> [] \<Longrightarrow> top_keywords_of kws \<noteq> []"
proof -
  assume "kws \<noteq> []"
  then obtain k where "k \<in> set kws" by (cases kws) auto
  then have "(k, count_list kws k) \<in> set (Counter kws)"
    by (simp add: Counter_def tally_member)
  then have "Counter kws \<noteq> []" by auto
  then show ?thesis
    by (simp add: top_keywords_of_def most_common_def) (metis length_0_conv length_sort)
qed

lemma keyword_analysis_with_keywords:
  assumes "all_keywords lib df \<noteq> []" and "keyword_analysis lib df = Inr (img, summary)"
  shows "summary = summary_sentence (top_keywords_of (all_keywords lib df))"
  using assms top_keywords_of_nonempty [OF assms(1)]
  by (auto simp: keyword_analysis_def Let_def split: sum.splits)

lemma keyword_analysis_without_keywords:
  "all_keywords lib df = [] \<Longrightarrow> keyword_analysis lib df = Inr ('''', '''')"
  by (simp add: keyword_analysis_def)

text \<open>
  The sentence lists all top keywords but the last, separated by commas, then \<open>et\<close>, then
  the last one: the form "k1, \<dots>, k5 et k6" when there are two or more.
\<close>

lemma summary_sentence_snoc:
  \<open>summary_sentence (ks @ [k]) =
     ''Les mots-cl'' @ [CHR 0xC3, CHR 0xA9] @ ''s les plus r'' @ [CHR 0xC3, CHR 0xA9] @
     ''currents dans la couverture m'' @ [CHR 0xC3, CHR 0xA9] @ ''diatique sont '' @
     join '', '' ks @ '' et '' @ k @ ''. '' @
     ''Cela refl'' @ [CHR 0xC3, CHR 0xA8] @ ''te les th'' @ [CHR 0xC3, CHR 0xA9] @
     ''matiques principales abord'' @ [CHR 0xC3, CHR 0xA9] @ ''es dans les articles analys'' @
     [CHR 0xC3, CHR 0xA9] @ ''s.''\<close>
  by (simp add: summary_sentence_def)

lemma summary_sentence_two_keywords:
  \<open>summary_sentence [''ai'', ''policy''] =
     ''Les mots-cl'' @ [CHR 0xC3, CHR 0xA9] @ ''s les plus r'' @ [CHR 0xC3, CHR 0xA9] @
     ''currents dans la couverture m'' @ [CHR 0xC3, CHR 0xA9] @ ''diatique sont ai et policy. '' @
     ''Cela refl'' @ [CHR 0xC3, CHR 0xA8] @ ''te les th'' @ [CHR 0xC3, CHR 0xA9] @
     ''matiques principales abord'' @ [CHR 0xC3, CHR 0xA9] @ ''es dans les articles analys'' @
     [CHR 0xC3, CHR 0xA9] @ ''s.''\<close>
  by (simp add: summary_sentence_def)

text \<open>
  C5. The claim: with one top keyword the sentence names it without an \<open>et\<close> list and
  without a dangling conjunction. The code: lines 94-98 always write
  \<^verbatim>\<open>', '.join(top_keywords[:-1])\<close>, then \<^verbatim>\<open>" et "\<close>, then the last keyword; with one keyword the
  joined part is empty, and the sentence reads "\<dots> sont  et ai." (two spaces, then the
  conjunction with nothing before it). The batch is one article with the one keyword
  \<^verbatim>\<open>AI\<close>.
\<close>

theorem single_keyword_sentence_keeps_et:
  \<open>keyword_analysis sample_library lone_keyword_batch =
     Inr (''PNG'',
          ''Les mots-cl'' @ [CHR 0xC3, CHR 0xA9] @ ''s les plus r'' @ [CHR 0xC3, CHR 0xA9] @
          ''currents dans la couverture m'' @ [CHR 0xC3, CHR 0xA9] @ ''diatique sont  et ai. '' @
          ''Cela refl'' @ [CHR 0xC3, CHR 0xA8] @ ''te les th'' @ [CHR 0xC3, CHR 0xA9] @
          ''matiques principales abord'' @ [CHR 0xC3, CHR 0xA9] @ ''es dans les articles analys'' @
          [CHR 0xC3, CHR 0xA9] @ ''s.'')\<close>
proof -
  have kws: "all_keywords sample_library lone_keyword_batch = [''ai'']"
    by code_simp
  have top: "top_keywords_of [''ai''] = [''ai'']"
    by code_simp
  show ?thesis
    by (simp add: keyword_analysis_def kws top fig_to_base64_sample sample_library_simps Let_def
        summary_sentence_def)
qed

subsection \<open>A batch without keywords\<close>

lemma keywords_block_in_report:
  "sublist (keywords_block kw) (html_report k e kw s sa t)"
proof -
  have "html_report k e kw s sa t =
          (html_head @ kpi_tiles k @ evolution_block e) @ keywords_block kw @
          (summary_block s @ sentiments_block sa @ top_authors_block t @ html_tail)"
    by (simp add: html_report_def)
  then show ?thesis
    by (simp only: sublist_appendI)
qed

lemma summary_block_in_report:
  "sublist (summary_block s) (html_report k e kw s sa t)"
proof -
  have "html_report k e kw s sa t =
          (html_head @ kpi_tiles k @ evolution_block e @ keywords_block kw) @ summary_block s @
          (sentiments_block sa @ top_authors_block t @ html_tail)"
    by (simp add: html_report_def)
  then show ?thesis
    by (simp only: sublist_appendI)
qed

lemma empty_keywords_block:
  \<open>keywords_block '''' =
     (''    <div class="image-block">\<newline>'' @ ''        '') @ keywords_heading @
     (''\<newline>'' @ ''        '') @ empty_keyword_image @ (''\<newline>'' @ ''    </div>\<newline>'')\<close>
  by (simp add: keywords_block_def keywords_heading_def empty_keyword_image_def)

lemma heading_in_empty_keywords_block: "sublist keywords_heading (keywords_block '''')"
  unfolding empty_keywords_block by (rule sublist_appendI)

lemma image_in_empty_keywords_block: "sublist empty_keyword_image (keywords_block '''')"
proof -
  have \<open>keywords_block '''' =
     ((''    <div class="image-block">\<newline>'' @ ''        '') @ keywords_heading @
      (''\<newline>'' @ ''        '')) @ empty_keyword_image @ (''\<newline>'' @ ''    </div>\<newline>'')\<close>
    unfolding empty_keywords_block by simp
  then show ?thesis
    by (simp only: sublist_appendI)
qed

lemma analyser_json_quiet:
  "analyser_json sample_library quiet_batch None =
     (Inr \<lparr>resp_kpis = compute_kpis quiet_batch,
           resp_html_report =
             html_report (compute_kpis quiet_batch) ''PNG'' '''' '''' ''PNG''
               (plain_table (top_table_rows sample_library quiet_batch))\<rparr>,
      Some (html_report (compute_kpis quiet_batch) ''PNG'' '''' '''' ''PNG''
               (plain_table (top_table_rows sample_library quiet_batch))))"
proof -
  have ne: "quiet_batch \<noteq> []" by (simp add: quiet_batch_def)
  have range: "list_all (\<lambda>a. in_datetime64_ns (published_at a)) quiet_batch"
    by (simp add: quiet_batch_def article_def in_datetime64_ns_def)
  have "all_keywords sample_library quiet_batch = []"
    by (simp add: all_keywords_def quiet_batch_def article_def)
  then have kw: "keyword_analysis sample_library quiet_batch = Inr ('''', '''')"
    by (rule keyword_analysis_without_keywords)
  show ?thesis
    using analyser_json_success [OF ne range fig_to_base64_sample kw fig_to_base64_sample
        sample_library_simps(7)]
    by (simp add: sample_library_simps)
qed

text \<open>
  C6. The claim says that, when there is no keyword at all, the keyword section and its
  image are left out of the document. They are not: the template of lines 127-178 is
  fixed. On the one-article batch without keywords the run returns, and the document it
  returns holds the heading of the keyword section and its \<^verbatim>\<open>img\<close> element, with an empty
  data URI.
\<close>

theorem keyword_section_not_omitted:
  "all_keywords sample_library quiet_batch = [] \<and>
   \<not> isl (fst (analyser_json sample_library quiet_batch None)) \<and>
   sublist keywords_heading
     (resp_html_report (projr (fst (analyser_json sample_library quiet_batch None)))) \<and>
   sublist empty_keyword_image
     (resp_html_report (projr (fst (analyser_json sample_library quiet_batch None))))"
proof -
  have "all_keywords sample_library quiet_batch = []"
    by (simp add: all_keywords_def quiet_batch_def article_def)
  moreover have "sublist keywords_heading (html_report k e '''' s sa t)" for k e s sa t
    using heading_in_empty_keywords_block keywords_block_in_report
    by (rule sublist_order.order_trans)
  moreover have "sublist empty_keyword_image (html_report k e '''' s sa t)" for k e s sa t
    using image_in_empty_keywords_block keywords_block_in_report
    by (rule sublist_order.order_trans)
  ultimately show ?thesis
    by (simp add: analyser_json_quiet)
qed

text \<open>
  C6, as the code has it. Take a batch that is not empty, whose timestamps all lie in the
  range pandas holds as \<^verbatim>\<open>datetime64[ns]\<close>, whose flattened keyword list is empty, on
  which the line chart and the bar chart render, and for which the report file can be
  written. Then the keyword step makes no picture and gives the empty summary (the word
  cloud is not called), the run returns the indicators and the document, and the document
  holds the keyword section with its heading and an \<^verbatim>\<open>img\<close> element without data, and the
  summary section with an empty paragraph.
\<close>

theorem no_keywords_degraded_report:
  assumes "all_keywords lib df = []"
    and "df \<noteq> []"
    and "list_all (\<lambda>a. in_datetime64_ns (published_at a)) df"
    and "fig_to_base64 lib (LineChart (mentions_over_time lib (map (\<lambda>a. utc_day (published_at a)) df))) = Inr e"
    and "fig_to_base64 lib (StackedBars (top_authors_sentiment lib df)) = Inr sa"
    and "write_text lib file
           (html_report (compute_kpis df) e '''' '''' sa (to_html lib (top_table_rows lib df))) = Written"
  shows "keyword_analysis lib df = Inr ('''', '''') \<and>
         fst (analyser_json lib df file) =
           Inr \<lparr>resp_kpis = compute_kpis df,
                resp_html_report =
                  html_report (compute_kpis df) e '''' '''' sa (to_html lib (top_table_rows lib df))\<rparr> \<and>
         sublist keywords_heading
           (html_report (compute_kpis df) e '''' '''' sa (to_html lib (top_table_rows lib df))) \<and>
         sublist empty_keyword_image
           (html_report (compute_kpis df) e '''' '''' sa (to_html lib (top_table_rows lib df))) \<and>
         sublist (summary_block '''')
           (html_report (compute_kpis df) e '''' '''' sa (to_html lib (top_table_rows lib df)))"
proof -
  have kw: "keyword_analysis lib df = Inr ('''', '''')"
    using assms(1) by (rule keyword_analysis_without_keywords)
  have "sublist keywords_heading (html_report k e '''' s sa t)" for k s t
    using heading_in_empty_keywords_block keywords_block_in_report
    by (rule sublist_order.order_trans)
  moreover have "sublist empty_keyword_image (html_report k e '''' s sa t)" for k s t
    using image_in_empty_keywords_block keywords_block_in_report
    by (rule sublist_order.order_trans)
  ultimately show ?thesis
    using kw analyser_json_success [OF assms(2,3,4) kw assms(5,6)]
    by (simp add: summary_block_in_report)
qed

theorem no_keywords_degraded_report_witness:
  "keyword_analysis sample_library quiet_batch = Inr ('''', '''') \<and>
   fst (analyser_json sample_library quiet_batch None) =
     Inr \<lparr>resp_kpis = \<lparr>total_mentions = 1, positive = 0, negative = 0, neutral = 1\<rparr>,
          resp_html_report =
            html_report \<lparr>total_mentions = 1, positive = 0, negative = 0, neutral = 1\<rparr>
              ''PNG'' '''' '''' ''PNG'' ''ana: 1; ''\<rparr>"
proof -
  have kws: "all_keywords sample_library quiet_batch = []"
    by (simp add: all_keywords_def quiet_batch_def article_def)
  have ne: "quiet_batch \<noteq> []" by (simp add: quiet_batch_def)
  have range: "list_all (\<lambda>a. in_datetime64_ns (published_at a)) quiet_batch"
    by (simp add: quiet_batch_def article_def in_datetime64_ns_def)
  have k: "compute_kpis quiet_batch = \<lparr>total_mentions = 1, positive = 0, negative = 0, neutral = 1\<rparr>"
    by (simp add: compute_kpis_def count_equal_def quiet_batch_def article_def)
  have t: "to_html sample_library (top_table_rows sample_library quiet_batch) = ''ana: 1; ''"
    by code_simp
  from no_keywords_degraded_report [OF kws ne range fig_to_base64_sample fig_to_base64_sample
      sample_library_simps(7), of None]
  show ?thesis
    unfolding k t by simp
qed

end
